theory Spec2Isabelle
  imports Complex_Main "HOL-Library.Sublist"
begin

section \<open>Text, character classes and conversions of the Python runtime\<close>

text \<open>
  A Python \<open>str\<close> is a sequence of Unicode code points; the labels of the report are
  Cyrillic, so a text is a list of code points (natural numbers), not a list of 8-bit
  characters. ASCII fragments are written as string literals and converted by \<open>ascii\<close>.
\<close>

type_synonym str = "nat list"

definition ascii :: "string \<Rightarrow> str" where
  "ascii s = map of_char s"

text \<open>
  The zero digits of the scripts of Unicode category Nd (Unicode 14.0, the table of
  CPython 3.11): every decimal digit lies in a run of ten code points that starts at one
  of them. The regular-expression class \<open>\d\<close>, \<open>int()\<close> and \<open>float()\<close> all use this
  table on \<open>str\<close> arguments.
\<close>

definition nd_zeros :: "nat list" where
  "nd_zeros = [48, 1632, 1776, 1984, 2406, 2534, 2662, 2790, 2918, 3046, 3174, 3302, 3430,
     3558, 3664, 3792, 3872, 4160, 4240, 6112, 6160, 6470, 6608, 6784, 6800, 6992, 7088, 7232,
     7248, 42528, 43216, 43264, 43472, 43504, 43600, 44016, 65296, 66720, 68912, 69734, 69872,
     69942, 70096, 70384, 70736, 70864, 71248, 71360, 71472, 71904, 72016, 72784, 73040, 73120,
     92768, 92864, 93008, 120782, 120792, 120802, 120812, 120822, 123200, 123632, 125264,
     130032]"

definition decimal_value :: "nat \<Rightarrow> nat option" where
  "decimal_value c =
     (case filter (\<lambda>z. z \<le> c \<and> c < z + 10) nd_zeros of
        [] \<Rightarrow> None
      | z # _ \<Rightarrow> Some (c - z))"

definition isdecimal :: "nat \<Rightarrow> bool" where
  "isdecimal c = (decimal_value c \<noteq> None)"

text \<open>
  The code points for which \<open>str.isspace\<close> holds; the class \<open>\s\<close> and \<open>str.strip\<close>
  use the same set.
\<close>

definition whitespace :: "nat list" where
  "whitespace = [9, 10, 11, 12, 13, 28, 29, 30, 31, 32, 133, 160, 5760, 8192, 8193, 8194,
     8195, 8196, 8197, 8198, 8199, 8200, 8201, 8202, 8232, 8233, 8239, 8287, 12288]"

definition isspace :: "nat \<Rightarrow> bool" where
  "isspace c = (c \<in> set whitespace)"

definition strip :: "str \<Rightarrow> str" where
  "strip s = rev (dropWhile isspace (rev (dropWhile isspace s)))"

text \<open>\<open>int()\<close> on a run of decimal digits.\<close>

definition int_of_digits :: "str \<Rightarrow> nat" where
  "int_of_digits s =
     foldl (\<lambda>a c. 10 * a + (case decimal_value c of None \<Rightarrow> 0 | Some v \<Rightarrow> v)) 0 s"

text \<open>\<open>'%0kd' % n\<close> for a number of at most \<open>k\<close> digits.\<close>

fun zero_padded :: "nat \<Rightarrow> nat \<Rightarrow> str" where
  "zero_padded 0 n = []"
| "zero_padded (Suc k) n = zero_padded k (n div 10) @ [48 + n mod 10]"

text \<open>\<open>'%d' % n\<close>\<close>

fun decimal :: "nat \<Rightarrow> str" where
  "decimal n = (if n < 10 then [48 + n] else decimal (n div 10) @ [48 + n mod 10])"

section \<open>Regular expressions: the backtracking matcher of the \<open>re\<close> module\<close>

datatype cclass =
    Digit                 \<comment> \<open>\<open>\d\<close>\<close>
  | Space                 \<comment> \<open>\<open>\s\<close>\<close>
  | Range nat nat         \<comment> \<open>\<open>[a-b]\<close>\<close>
  | NotChr nat            \<comment> \<open>\<open>[^c]\<close>\<close>

fun in_class :: "cclass \<Rightarrow> nat \<Rightarrow> bool" where
  "in_class Digit c = isdecimal c"
| "in_class Space c = isspace c"
| "in_class (Range a b) c = (a \<le> c \<and> c \<le> b)"
| "in_class (NotChr x) c = (c \<noteq> x)"

datatype regex =
    Atom cclass
  | Lit str               \<comment> \<open>a literal run of characters\<close>
  | Seq regex regex
  | Alt regex regex       \<comment> \<open>\<open>r1|r2\<close>, the left alternative first\<close>
  | Star regex            \<comment> \<open>\<open>r*\<close>, greedy\<close>
  | Group nat regex       \<comment> \<open>a capturing group with its number\<close>

definition Plus :: "regex \<Rightarrow> regex" where
  "Plus r = Seq r (Star r)"

definition Opt :: "regex \<Rightarrow> regex" where
  "Opt r = Alt r (Lit [])"

fun seqs :: "regex list \<Rightarrow> regex" where
  "seqs [] = Lit []"
| "seqs [r] = r"
| "seqs (r # rs) = Seq r (seqs rs)"

fun alts :: "regex list \<Rightarrow> regex" where
  "alts [] = Lit []"
| "alts [r] = r"
| "alts (r # rs) = Alt r (alts rs)"

type_synonym groups = "nat \<Rightarrow> str option"

text \<open>
  \<open>matches r t g\<close> lists, in the order in which the backtracking engine tries them, the
  ways in which \<open>r\<close> matches a prefix of \<open>t\<close>: each with the rest of the text and the capture
  groups set so far. The head of the list is the match the engine reports.
\<close>

function matches :: "regex \<Rightarrow> str \<Rightarrow> groups \<Rightarrow> (str \<times> groups) list" where
  "matches (Atom k) t g =
     (case t of [] \<Rightarrow> [] | c # t' \<Rightarrow> if in_class k c then [(t', g)] else [])"
| "matches (Lit s) t g = (if prefix s t then [(drop (length s) t, g)] else [])"
| "matches (Seq r1 r2) t g =
     concat (map (\<lambda>(t', g'). matches r2 t' g') (matches r1 t g))"
| "matches (Alt r1 r2) t g = matches r1 t g @ matches r2 t g"
| "matches (Star r) t g =
     concat (map (\<lambda>(t', g'). if length t' < length t then matches (Star r) t' g' else [])
                 (matches r t g))
     @ [(t, g)]"
| "matches (Group n r) t g =
     map (\<lambda>(t', g'). (t', g'(n \<mapsto> take (length t - length t') t))) (matches r t g)"
  by pat_completeness auto
termination
  by (relation "measures [\<lambda>(r, t, g). size r, \<lambda>(r, t, g). length t]") auto

text \<open>\<open>Pattern.match\<close>: the first match at the start of the text.\<close>

definition re_match :: "regex \<Rightarrow> str \<Rightarrow> (str \<times> groups) option" where
  "re_match r t = (case matches r t Map.empty of [] \<Rightarrow> None | x # _ \<Rightarrow> Some x)"

text \<open>\<open>Pattern.search\<close>: the first match at the leftmost position that has one.\<close>

fun search :: "regex \<Rightarrow> str \<Rightarrow> groups option" where
  "search r [] = (case re_match r [] of None \<Rightarrow> None | Some (_, g) \<Rightarrow> Some g)"
| "search r (c # t) =
     (case re_match r (c # t) of None \<Rightarrow> search r t | Some (_, g) \<Rightarrow> Some g)"

section \<open>The patterns of the report\<close>

text \<open>The Cyrillic labels, as code points.\<close>

definition lbl_TS :: str where
  "lbl_TS = [1058, 1057]"

definition lbl_Smena :: str where
  "lbl_Smena = [1057, 1084, 1077, 1085, 1072]"

definition lbl_Naimenovanie_TS :: str where
  "lbl_Naimenovanie_TS =
     [1053, 1072, 1080, 1084, 1077, 1085, 1086, 1074, 1072, 1085, 1080, 1077, 32, 1058, 1057]"

definition lbl_Nachalo_smeny :: str where
  "lbl_Nachalo_smeny = [1053, 1072, 1095, 1072, 1083, 1086, 32, 1089, 1084, 1077, 1085, 1099]"

definition lbl_Nachalo :: str where
  "lbl_Nachalo = [1053, 1072, 1095, 1072, 1083, 1086]"

definition lbl_Okonchanie_smeny :: str where
  "lbl_Okonchanie_smeny =
     [1054, 1082, 1086, 1085, 1095, 1072, 1085, 1080, 1077, 32, 1089, 1084, 1077, 1085, 1099]"

definition lbl_Konets_smeny :: str where
  "lbl_Konets_smeny = [1050, 1086, 1085, 1077, 1094, 32, 1089, 1084, 1077, 1085, 1099]"

definition lbl_Okonchanie :: str where
  "lbl_Okonchanie = [1054, 1082, 1086, 1085, 1095, 1072, 1085, 1080, 1077]"

definition lbl_Pererabotka :: str where
  "lbl_Pererabotka = [1055, 1077, 1088, 1077, 1088, 1072, 1073, 1086, 1090, 1082, 1072]"

definition lbl_Pererabotki :: str where
  "lbl_Pererabotki = [1055, 1077, 1088, 1077, 1088, 1072, 1073, 1086, 1090, 1082, 1080]"

definition lbl_Obshchiy_probeg :: str where
  "lbl_Obshchiy_probeg = [1054, 1073, 1097, 1080, 1081, 32, 1087, 1088, 1086, 1073, 1077, 1075]"

definition lbl_Probeg_obshchiy :: str where
  "lbl_Probeg_obshchiy = [1055, 1088, 1086, 1073, 1077, 1075, 32, 1086, 1073, 1097, 1080, 1081]"

definition lbl_Probeg_za_MKAD :: str where
  "lbl_Probeg_za_MKAD =
     [1055, 1088, 1086, 1073, 1077, 1075, 32, 1079, 1072, 32, 1052, 1050, 1040, 1044]"

definition digits2 :: regex where
  "digits2 = Seq (Atom Digit) (Atom Digit)"

definition digits4 :: regex where
  "digits4 = Seq (Atom Digit) (Seq (Atom Digit) (Seq (Atom Digit) (Atom Digit)))"

definition DATE_PATTERN :: regex where
  "DATE_PATTERN = Group 1 (seqs [digits2, Lit (ascii ''.''), digits2, Lit (ascii ''.''), digits4])"

definition VEHICLE_PATTERN :: regex where
  "VEHICLE_PATTERN =
     seqs [alts [Lit lbl_TS, Lit lbl_Smena, Lit lbl_Naimenovanie_TS],
           Plus (Atom Space),
           Group 1 (Plus (Atom (NotChr 10)))]"

definition clock :: regex where
  "clock = seqs [digits2, Lit (ascii '':''), digits2]"

definition START_PATTERN :: regex where
  "START_PATTERN =
     seqs [alts [Lit lbl_Nachalo_smeny, Lit lbl_Nachalo], Plus (Atom Space), Group 1 clock]"

definition END_PATTERN :: regex where
  "END_PATTERN =
     seqs [alts [Lit lbl_Okonchanie_smeny, Lit lbl_Konets_smeny, Lit lbl_Okonchanie],
           Plus (Atom Space),
           Group 1 clock]"

definition OVERTIME_PATTERN :: regex where
  "OVERTIME_PATTERN =
     seqs [alts [Lit lbl_Pererabotka, Lit lbl_Pererabotki],
           Plus (Atom Space),
           Group 1 (Plus (Atom Digit)),
           Opt (Seq (Star (Atom Space)) (Group 2 (Plus (Atom Digit))))]"

definition KM_PATTERN :: regex where
  "KM_PATTERN =
     seqs [alts [Lit lbl_Obshchiy_probeg, Lit lbl_Probeg_obshchiy],
           Plus (Atom Space),
           Group 1 (Plus (Atom Digit))]"

definition KM_MKAD_PATTERN :: regex where
  "KM_MKAD_PATTERN =
     seqs [Lit lbl_Probeg_za_MKAD, Plus (Atom Space), Group 1 (Plus (Atom Digit))]"

section \<open>\<open>datetime.strptime\<close> and the other conversions\<close>

datatype exn = ValueError str | TypeError str | AttributeError str

fun str_of_exn :: "exn \<Rightarrow> str" where
  "str_of_exn (ValueError s) = s"
| "str_of_exn (TypeError s) = s"
| "str_of_exn (AttributeError s) = s"

text \<open>\<open>repr\<close> of a text without quotes, backslashes or unprintable characters.\<close>

definition repr :: "str \<Rightarrow> str" where
  "repr s = [39] @ s @ [39]"

datatype pydate = Date nat nat nat     \<comment> \<open>year, month, day\<close>

datatype pytime = Time nat nat         \<comment> \<open>hour, minute\<close>

definition isleap :: "nat \<Rightarrow> bool" where
  "isleap y = (y mod 4 = 0 \<and> (y mod 100 \<noteq> 0 \<or> y mod 400 = 0))"

definition days_in_month :: "nat \<Rightarrow> nat \<Rightarrow> nat" where
  "days_in_month y mo =
     (if mo = 2 then (if isleap y then 29 else 28)
      else if mo = 4 \<or> mo = 6 \<or> mo = 9 \<or> mo = 11 then 30
      else 31)"

text \<open>The constructor \<open>date(year, month, day)\<close> with its range checks.\<close>

definition datetime_date :: "nat \<Rightarrow> nat \<Rightarrow> nat \<Rightarrow> exn + pydate" where
  "datetime_date y mo d =
     (if y < 1 \<or> 9999 < y then
        Inl (ValueError (ascii ''year '' @ decimal y @ ascii '' is out of range''))
      else if mo < 1 \<or> 12 < mo then Inl (ValueError (ascii ''month must be in 1..12''))
      else if d < 1 \<or> days_in_month y mo < d then
        Inl (ValueError (ascii ''day is out of range for month''))
      else Inr (Date y mo d))"

text \<open>
  The regular expressions that \<open>_strptime\<close> builds for the directives:
  \<open>%d\<close> is \<open>3[0-1]|[1-2]\d|0[1-9]|[1-9]| [1-9]\<close>, \<open>%m\<close> is \<open>1[0-2]|0[1-9]|[1-9]\<close>,
  \<open>%Y\<close> is \<open>\d\d\d\d\<close>, \<open>%H\<close> is \<open>2[0-3]|[0-1]\d|\d\<close>, \<open>%M\<close> is \<open>[0-5]\d|\d\<close>.
  The named groups are numbered in the order of the format.
\<close>

definition directive_d :: regex where
  "directive_d =
     alts [Seq (Lit (ascii ''3'')) (Atom (Range 48 49)),
           Seq (Atom (Range 49 50)) (Atom Digit),
           Seq (Lit (ascii ''0'')) (Atom (Range 49 57)),
           Atom (Range 49 57),
           Seq (Lit (ascii '' '')) (Atom (Range 49 57))]"

definition directive_m :: regex where
  "directive_m =
     alts [Seq (Lit (ascii ''1'')) (Atom (Range 48 50)),
           Seq (Lit (ascii ''0'')) (Atom (Range 49 57)),
           Atom (Range 49 57)]"

definition directive_Y :: regex where
  "directive_Y = digits4"

definition directive_H :: regex where
  "directive_H =
     alts [Seq (Lit (ascii ''2'')) (Atom (Range 48 51)),
           Seq (Atom (Range 48 49)) (Atom Digit),
           Atom Digit]"

definition directive_M :: regex where
  "directive_M = alts [Seq (Atom (Range 48 53)) (Atom Digit), Atom Digit]"

definition format_dmY :: regex where
  "format_dmY =
     seqs [Group 1 directive_d, Lit (ascii ''.''), Group 2 directive_m, Lit (ascii ''.''),
           Group 3 directive_Y]"

definition format_HM :: regex where
  "format_HM = seqs [Group 1 directive_H, Lit (ascii '':''), Group 2 directive_M]"

text \<open>
  The common part of \<open>_strptime\<close>: match the format at the start of the data, refuse data
  that the match does not use up.
\<close>

definition strptime_groups :: "regex \<Rightarrow> string \<Rightarrow> str option \<Rightarrow> exn + groups" where
  "strptime_groups format_regex fmt arg =
     (case arg of
        None \<Rightarrow> Inl (TypeError (ascii ''strptime() argument 1 must be str, not None''))
      | Some data_string \<Rightarrow>
          (case re_match format_regex data_string of
             None \<Rightarrow>
               Inl (ValueError (ascii ''time data '' @ repr data_string
                                @ ascii '' does not match format '' @ repr (ascii fmt)))
           | Some (rest, found) \<Rightarrow>
               if rest \<noteq> [] then
                 Inl (ValueError (ascii ''unconverted data remains: '' @ rest))
               else Inr found))"

text \<open>\<open>int(found_dict[name])\<close>; a group of these formats takes part in every match.\<close>

definition int_group :: "groups \<Rightarrow> nat \<Rightarrow> nat" where
  "int_group found n = (case found n of None \<Rightarrow> 0 | Some s \<Rightarrow> int_of_digits s)"

text \<open>\<open>datetime.strptime(s, "%d.%m.%Y").date()\<close>\<close>

definition strptime_dmY :: "str option \<Rightarrow> exn + pydate" where
  "strptime_dmY arg =
     (case strptime_groups format_dmY ''%d.%m.%Y'' arg of
        Inl e \<Rightarrow> Inl e
      | Inr found \<Rightarrow> datetime_date (int_group found 3) (int_group found 2) (int_group found 1))"

text \<open>\<open>datetime.strptime(s, "%H:%M").time()\<close>; the date is 1900-01-01 and always in range.\<close>

definition strptime_HM :: "str option \<Rightarrow> exn + pytime" where
  "strptime_HM arg =
     (case strptime_groups format_HM ''%H:%M'' arg of
        Inl e \<Rightarrow> Inl e
      | Inr found \<Rightarrow> Inr (Time (int_group found 1) (int_group found 2)))"

text \<open>
  \<open>float(s)\<close>. Python floats are modelled by real numbers: the value is the number that
  the float operation rounds, and rounding and overflow are not modelled. The pattern
  captures that \<open>parse_report\<close> passes are runs of decimal digits, which \<open>float\<close> always
  accepts; what \<open>float\<close> makes of other texts (signs, exponents, separators) is not
  modelled, they are refused here.
\<close>

definition py_float :: "str option \<Rightarrow> exn + real" where
  "py_float arg =
     (case arg of
        None \<Rightarrow>
          Inl (TypeError (ascii ''float() argument must be a string or a real number, not '' @
                          repr (ascii ''NoneType'')))
      | Some s \<Rightarrow>
          if s \<noteq> [] \<and> list_all isdecimal s then Inr (real (int_of_digits s))
          else Inl (ValueError (ascii ''could not convert string to float: '' @ repr s)))"

definition py_strip :: "str option \<Rightarrow> exn + str" where
  "py_strip arg =
     (case arg of
        None \<Rightarrow>
          Inl (AttributeError (repr (ascii ''NoneType'') @ ascii '' object has no attribute ''
                               @ repr (ascii ''strip'')))
      | Some s \<Rightarrow> Inr (strip s))"

text \<open>\<open>str(date)\<close> and \<open>str(time)\<close>.\<close>

fun str_of_date :: "pydate \<Rightarrow> str" where
  "str_of_date (Date y mo d) =
     zero_padded 4 y @ ascii ''-'' @ zero_padded 2 mo @ ascii ''-'' @ zero_padded 2 d"

fun str_of_time :: "pytime \<Rightarrow> str" where
  "str_of_time (Time h mi) = zero_padded 2 h @ ascii '':'' @ zero_padded 2 mi @ ascii '':00''"

text \<open>
  \<open>(datetime.combine(d, e) - datetime.combine(d, s)).total_seconds()\<close> for two clock
  times on the same date: the difference of the seconds since midnight.
\<close>

fun seconds_of_time :: "pytime \<Rightarrow> int" where
  "seconds_of_time (Time h mi) = int h * 3600 + int mi * 60"

definition total_seconds_between :: "pydate \<Rightarrow> pytime \<Rightarrow> pytime \<Rightarrow> real" where
  "total_seconds_between d start_time end_time =
     real_of_int (seconds_of_time end_time - seconds_of_time start_time)"

section \<open>\<open>parse_report\<close>\<close>

record report =
  date :: str
  vehicle :: str
  start_time :: str
  end_time :: str
  work_hours :: real
  overtime :: real
  total_km :: real
  km_mkad :: real

definition msg_date :: str where
  "msg_date = [1053, 1077, 32, 1085, 1072, 1081, 1076, 1077, 1085, 1072, 32, 1076, 1072, 1090,
     1072]"

definition msg_vehicle :: str where
  "msg_vehicle = [1053, 1077, 32, 1085, 1072, 1081, 1076, 1077, 1085, 1086, 32, 1085, 1072,
     1080, 1084, 1077, 1085, 1086, 1074, 1072, 1085, 1080, 1077, 32, 1058, 1057]"

definition msg_start :: str where
  "msg_start = [1053, 1077, 32, 1085, 1072, 1081, 1076, 1077, 1085, 1086, 32, 1074, 1088, 1077,
     1084, 1103, 32, 1085, 1072, 1095, 1072, 1083, 1072]"

definition msg_end :: str where
  "msg_end = [1053, 1077, 32, 1085, 1072, 1081, 1076, 1077, 1085, 1086, 32, 1074, 1088, 1077,
     1084, 1103, 32, 1086, 1082, 1086, 1085, 1095, 1072, 1085, 1080, 1103]"

definition msg_overtime :: str where
  "msg_overtime = [1053, 1077, 32, 1085, 1072, 1081, 1076, 1077, 1085, 1072, 32, 1087, 1077,
     1088, 1077, 1088, 1072, 1073, 1086, 1090, 1082, 1072]"

definition msg_km :: str where
  "msg_km = [1053, 1077, 32, 1085, 1072, 1081, 1076, 1077, 1085, 32, 1086, 1073, 1097, 1080,
     1081, 32, 1087, 1088, 1086, 1073, 1077, 1075]"

text \<open>
  The body of the \<open>try\<close> block: \<open>Inl\<close> is an exception raised inside it, \<open>Inr\<close> the pair
  it returns.
\<close>

definition parse_body :: "str \<Rightarrow> exn + (report option \<times> str option)" where
  "parse_body report_text =
   (case search DATE_PATTERN report_text of
      None \<Rightarrow> Inr (None, Some msg_date)
    | Some date_match \<Rightarrow>
   (case strptime_dmY (date_match 1) of
      Inl e \<Rightarrow> Inl e
    | Inr report_date \<Rightarrow>
   (case search VEHICLE_PATTERN report_text of
      None \<Rightarrow> Inr (None, Some msg_vehicle)
    | Some vehicle_match \<Rightarrow>
   (case py_strip (vehicle_match 1) of
      Inl e \<Rightarrow> Inl e
    | Inr vehicle_name \<Rightarrow>
   (case search START_PATTERN report_text of
      None \<Rightarrow> Inr (None, Some msg_start)
    | Some start_match \<Rightarrow>
   (case strptime_HM (start_match 1) of
      Inl e \<Rightarrow> Inl e
    | Inr start \<Rightarrow>
   (case search END_PATTERN report_text of
      None \<Rightarrow> Inr (None, Some msg_end)
    | Some end_match \<Rightarrow>
   (case strptime_HM (end_match 1) of
      Inl e \<Rightarrow> Inl e
    | Inr end \<Rightarrow>
   (case search OVERTIME_PATTERN report_text of
      None \<Rightarrow> Inr (None, Some msg_overtime)
    | Some overtime_match \<Rightarrow>
   (case py_float (overtime_match 1) of
      Inl e \<Rightarrow> Inl e
    | Inr hours \<Rightarrow>
   (case (if overtime_match 2 = None \<or> overtime_match 2 = Some []
          then Inr 0 else py_float (overtime_match 2)) of
      Inl e \<Rightarrow> Inl e
    | Inr minutes \<Rightarrow>
   (case search KM_PATTERN report_text of
      None \<Rightarrow> Inr (None, Some msg_km)
    | Some km_match \<Rightarrow>
   (case py_float (km_match 1) of
      Inl e \<Rightarrow> Inl e
    | Inr km \<Rightarrow>
   (case (case search KM_MKAD_PATTERN report_text of
            None \<Rightarrow> Inr 0
          | Some km_mkad_match \<Rightarrow> py_float (km_mkad_match 1)) of
      Inl e \<Rightarrow> Inl e
    | Inr mkad \<Rightarrow>
      Inr (Some \<lparr> date = str_of_date report_date,
                  vehicle = vehicle_name,
                  start_time = str_of_time start,
                  end_time = str_of_time end,
                  work_hours = total_seconds_between report_date start end / 3600,
                  overtime = hours + minutes / 60,
                  total_km = km,
                  km_mkad = mkad \<rparr>,
           None)))))))))))))))"

text \<open>\<open>except Exception as e: return None, str(e)\<close>\<close>

definition parse_report :: "str \<Rightarrow> report option \<times> str option" where
  "parse_report report_text =
     (case parse_body report_text of
        Inl e \<Rightarrow> (None, Some (str_of_exn e))
      | Inr result \<Rightarrow> result)"

section \<open>Notions of the specification\<close>

text \<open>
  What the extractors find, with the conversion that \<open>parse_report\<close> applies to it: the
  date, the start and the end of the shift of a text, when the first match of the pattern
  converts.
\<close>

definition date_of :: "str \<Rightarrow> pydate option" where
  "date_of t =
     (case search DATE_PATTERN t of
        None \<Rightarrow> None
      | Some g \<Rightarrow> (case strptime_dmY (g 1) of Inl e \<Rightarrow> None | Inr d \<Rightarrow> Some d))"

definition start_of :: "str \<Rightarrow> pytime option" where
  "start_of t =
     (case search START_PATTERN t of
        None \<Rightarrow> None
      | Some g \<Rightarrow> (case strptime_HM (g 1) of Inl e \<Rightarrow> None | Inr x \<Rightarrow> Some x))"

definition end_of :: "str \<Rightarrow> pytime option" where
  "end_of t =
     (case search END_PATTERN t of
        None \<Rightarrow> None
      | Some g \<Rightarrow> (case strptime_HM (g 1) of Inl e \<Rightarrow> None | Inr x \<Rightarrow> Some x))"

text \<open>The six required fields, in the order in which \<open>parse_report\<close> extracts them.\<close>

datatype field = Date_field | Vehicle_field | Start_field | End_field | Overtime_field | Km_field

fun rank :: "field \<Rightarrow> nat" where
  "rank Date_field = 0"
| "rank Vehicle_field = 1"
| "rank Start_field = 2"
| "rank End_field = 3"
| "rank Overtime_field = 4"
| "rank Km_field = 5"

fun pattern_of :: "field \<Rightarrow> regex" where
  "pattern_of Date_field = DATE_PATTERN"
| "pattern_of Vehicle_field = VEHICLE_PATTERN"
| "pattern_of Start_field = START_PATTERN"
| "pattern_of End_field = END_PATTERN"
| "pattern_of Overtime_field = OVERTIME_PATTERN"
| "pattern_of Km_field = KM_PATTERN"

fun missing_message :: "field \<Rightarrow> str" where
  "missing_message Date_field = msg_date"
| "missing_message Vehicle_field = msg_vehicle"
| "missing_message Start_field = msg_start"
| "missing_message End_field = msg_end"
| "missing_message Overtime_field = msg_overtime"
| "missing_message Km_field = msg_km"

text \<open>
  A field is present with a valid value when its extractor finds a match and, for the
  date and the two clock times, the text found converts.
\<close>

fun field_valid :: "field \<Rightarrow> str \<Rightarrow> bool" where
  "field_valid Date_field t = (date_of t \<noteq> None)"
| "field_valid Vehicle_field t = (search VEHICLE_PATTERN t \<noteq> None)"
| "field_valid Start_field t = (start_of t \<noteq> None)"
| "field_valid End_field t = (end_of t \<noteq> None)"
| "field_valid Overtime_field t = (search OVERTIME_PATTERN t \<noteq> None)"
| "field_valid Km_field t = (search KM_PATTERN t \<noteq> None)"

definition required_valid :: "str \<Rightarrow> bool" where
  "required_valid t =
     (field_valid Date_field t \<and> field_valid Vehicle_field t \<and> field_valid Start_field t \<and>
      field_valid End_field t \<and> field_valid Overtime_field t \<and> field_valid Km_field t)"

text \<open>The shape \<open>DD.MM.YYYY\<close>: ten characters, digits around two full stops.\<close>

fun date_shape :: "str \<Rightarrow> bool" where
  "date_shape [d1, d2, p1, m1, m2, p2, y1, y2, y3, y4] =
     (isdecimal d1 \<and> isdecimal d2 \<and> p1 = 46 \<and> isdecimal m1 \<and> isdecimal m2 \<and> p2 = 46 \<and>
      isdecimal y1 \<and> isdecimal y2 \<and> isdecimal y3 \<and> isdecimal y4)"
| "date_shape _ = False"

text \<open>The first place of a text, from the left, where the shape occurs.\<close>

fun first_date_shape :: "str \<Rightarrow> str option" where
  "first_date_shape [] = None"
| "first_date_shape (c # t) =
     (if date_shape (take 10 (c # t)) then Some (take 10 (c # t)) else first_date_shape t)"

text \<open>
  A standalone token of the shape: an occurrence with no digit right before it and no digit
  right after it. The flag tells whether the character before the text is a digit.
\<close>

fun standalone_date_token :: "bool \<Rightarrow> str \<Rightarrow> bool" where
  "standalone_date_token after_digit [] = False"
| "standalone_date_token after_digit (c # t) =
     ((\<not> after_digit \<and> date_shape (take 10 (c # t)) \<and>
       (case drop 10 (c # t) of [] \<Rightarrow> True | x # _ \<Rightarrow> \<not> isdecimal x))
      \<or> standalone_date_token (isdecimal c) t)"

text \<open>The labels of a field; a field's label is absent when none of them occurs in the text.\<close>

fun labels_of :: "field \<Rightarrow> str list" where
  "labels_of Date_field = []"
| "labels_of Vehicle_field = [lbl_TS, lbl_Smena, lbl_Naimenovanie_TS]"
| "labels_of Start_field = [lbl_Nachalo_smeny, lbl_Nachalo]"
| "labels_of End_field = [lbl_Okonchanie_smeny, lbl_Konets_smeny, lbl_Okonchanie]"
| "labels_of Overtime_field = [lbl_Pererabotka, lbl_Pererabotki]"
| "labels_of Km_field = [lbl_Obshchiy_probeg, lbl_Probeg_obshchiy]"

fun label_absent :: "field \<Rightarrow> str \<Rightarrow> bool" where
  "label_absent Date_field t = (first_date_shape t = None)"
| "label_absent f t = list_all (\<lambda>l. \<not> sublist l t) (labels_of f)"


text \<open>An integer follows a label: whitespace, then a digit.\<close>

definition integer_follows :: "str \<Rightarrow> bool" where
  "integer_follows post =
     (case post of
        [] \<Rightarrow> False
      | c # _ \<Rightarrow> isspace c \<and> (case dropWhile isspace post of [] \<Rightarrow> False | d # _ \<Rightarrow> isdecimal d))"

text \<open>
  An integer follows some occurrence of a label in a text; a label starts inside the first
  part of a text.
\<close>

fun label_with_integer :: "str \<Rightarrow> str \<Rightarrow> bool" where
  "label_with_integer l [] = False"
| "label_with_integer l (c # t) =
     ((prefix l (c # t) \<and> integer_follows (drop (length l) (c # t))) \<or> label_with_integer l t)"



text \<open>The diagnostic of the conversion of a field, when its text is found and does not convert.\<close>

fun conversion_error :: "field \<Rightarrow> str \<Rightarrow> exn option" where
  "conversion_error Date_field t =
     (case search DATE_PATTERN t of
        None \<Rightarrow> None
      | Some g \<Rightarrow> (case strptime_dmY (g 1) of Inl e \<Rightarrow> Some e | Inr d \<Rightarrow> None))"
| "conversion_error Start_field t =
     (case search START_PATTERN t of
        None \<Rightarrow> None
      | Some g \<Rightarrow> (case strptime_HM (g 1) of Inl e \<Rightarrow> Some e | Inr x \<Rightarrow> None))"
| "conversion_error End_field t =
     (case search END_PATTERN t of
        None \<Rightarrow> None
      | Some g \<Rightarrow> (case strptime_HM (g 1) of Inl e \<Rightarrow> Some e | Inr x \<Rightarrow> None))"
| "conversion_error f t = None"

section \<open>Reports used as examples\<close>

text \<open>\<open>"\n".join(lines)\<close>\<close>

fun unlines :: "str list \<Rightarrow> str" where
  "unlines [] = []"
| "unlines [l] = l"
| "unlines (l # ls) = l @ [10] @ unlines ls"

text \<open>The vehicle name of the example of the specification, a Cyrillic word of six letters.\<close>

definition Gazel :: str where
  "Gazel = [1043, 1072, 1079, 1077, 1083, 1100]"

definition line_date :: str where
  "line_date = ascii ''15.03.2024''"

definition line_vehicle :: str where
  "line_vehicle = lbl_TS @ ascii '' '' @ Gazel"

definition line_start :: str where
  "line_start = lbl_Nachalo_smeny @ ascii '' 08:00''"

definition line_end :: str where
  "line_end = lbl_Okonchanie_smeny @ ascii '' 16:30''"

definition line_overtime :: str where
  "line_overtime = lbl_Pererabotka @ ascii '' 1 15''"

definition line_km :: str where
  "line_km = lbl_Obshchiy_probeg @ ascii '' 120''"

definition line_mkad :: str where
  "line_mkad = lbl_Probeg_za_MKAD @ ascii '' 40''"

text \<open>The example of the specification.\<close>

definition report_example :: str where
  "report_example =
     unlines [line_date, line_vehicle, line_start, line_end, line_overtime, line_km, line_mkad]"

text \<open>A shift from 22:00 to 02:00.\<close>

definition report_overnight :: str where
  "report_overnight =
     unlines [line_date, line_vehicle, lbl_Nachalo_smeny @ ascii '' 22:00'',
              lbl_Okonchanie_smeny @ ascii '' 02:00'', line_overtime, line_km]"

text \<open>A start time of the right shape that is no clock time.\<close>

definition report_25_99 :: str where
  "report_25_99 =
     unlines [line_date, line_vehicle, lbl_Nachalo_smeny @ ascii '' 25:99'', line_end,
              line_overtime, line_km]"

text \<open>No line for the total distance; and no line for the start, the end and the distance.\<close>

definition report_no_km :: str where
  "report_no_km = unlines [line_date, line_vehicle, line_start, line_end, line_overtime]"

definition report_no_times :: str where
  "report_no_times = unlines [line_date, line_vehicle, line_overtime]"

text \<open>No line for the distance outside the ring road; and a line for it without a number.\<close>

definition report_no_mkad :: str where
  "report_no_mkad =
     unlines [line_date, line_vehicle, line_start, line_end, line_overtime, line_km]"

definition report_mkad_words :: str where
  "report_mkad_words =
     unlines [line_date, line_vehicle, line_start, line_end, line_overtime, line_km,
              lbl_Probeg_za_MKAD @ ascii '' n/a'']"

text \<open>
  A report whose overtime line gives two hours and no minutes, with the date on the line
  after it; and the lines before and after the overtime line of a report in the usual order.
\<close>

definition report_date_last :: str where
  "report_date_last =
     unlines [line_vehicle, line_start, line_end, line_km, lbl_Pererabotka @ ascii '' 2'',
              line_date]"

definition before_overtime :: str where
  "before_overtime = unlines [line_date, line_vehicle, line_start, line_end] @ [10]"

definition after_overtime :: str where
  "after_overtime = [10] @ line_km"

text \<open>The vehicle label alone on its line.\<close>

definition report_vehicle_next_line :: str where
  "report_vehicle_next_line =
     unlines [line_date, lbl_TS, line_start, line_end, line_overtime, line_km]"

text \<open>
  What \<open>parse_report\<close> owes its caller: an exception carries a message, and a returned
  pair has exactly one side, a record or a message that is not empty.
\<close>

definition outcome_ok :: "exn + (report option \<times> str option) \<Rightarrow> bool" where
  "outcome_ok x =
     (case x of
        Inl e \<Rightarrow> str_of_exn e \<noteq> []
      | Inr res \<Rightarrow> (\<exists>r. res = (Some r, None)) \<or> (\<exists>e. e \<noteq> [] \<and> res = (None, Some e)))"

declare matches.simps [simp del]

declare decimal.simps [simp del]

section \<open>Characters\<close>

lemma decimal_value_small:
  "c < 1632 \<Longrightarrow> decimal_value c = (if 48 \<le> c \<and> c < 58 then Some (c - 48) else None)"
  unfolding decimal_value_def nd_zeros_def by simp

lemma isdecimal_small: "c < 1632 \<Longrightarrow> isdecimal c = (48 \<le> c \<and> c < 58)"
  by (simp add: isdecimal_def decimal_value_small)


lemma whitespace_not_decimal: "list_all (\<lambda>c. \<not> isdecimal c) whitespace"
  unfolding whitespace_def by (simp add: isdecimal_def decimal_value_def nd_zeros_def)

lemma isspace_not_isdecimal: "isspace c \<Longrightarrow> \<not> isdecimal c"
  using whitespace_not_decimal by (simp add: isspace_def list_all_iff)

lemma isspace_newline: "isspace 10"
  by (simp add: isspace_def whitespace_def)

section \<open>The matcher\<close>

lemmas matches_Atom = matches.simps(1)
lemmas matches_Lit = matches.simps(2)
lemmas matches_Seq = matches.simps(3)
lemmas matches_Alt = matches.simps(4)
lemmas matches_Group = matches.simps(6)

lemma matches_Star_Atom_Nil: "matches (Star (Atom k)) [] g = [([], g)]"
  by (simp add: matches.simps)

lemma matches_Star_Atom_Cons:
  "matches (Star (Atom k)) (c # t) g =
     (if in_class k c then matches (Star (Atom k)) t g @ [(c # t, g)] else [(c # t, g)])"
  by (simp add: matches.simps)

lemma re_match_None_iff: "re_match r t = None \<longleftrightarrow> matches r t Map.empty = []"
  by (simp add: re_match_def split: list.splits)

lemma re_match_SomeD: "re_match r t = Some x \<Longrightarrow> x \<in> set (matches r t Map.empty)"
  by (auto simp: re_match_def split: list.splits)

lemma search_None_iff: "search r t = None \<longleftrightarrow> (\<forall>i \<le> length t. re_match r (drop i t) = None)"
proof (induction t)
  case Nil
  show ?case by (auto split: option.splits)
next
  case (Cons c t)
  have "(\<forall>i \<le> length (c # t). re_match r (drop i (c # t)) = None) \<longleftrightarrow>
        re_match r (c # t) = None \<and> (\<forall>i \<le> length t. re_match r (drop i t) = None)"
    (is "?L \<longleftrightarrow> ?R")
  proof
    assume l: ?L
    have "re_match r (c # t) = None" using l [rule_format, of 0] by simp
    moreover have "\<forall>i \<le> length t. re_match r (drop i t) = None"
    proof (intro allI impI)
      fix i assume "i \<le> length t"
      then show "re_match r (drop i t) = None" using l [rule_format, of "Suc i"] by simp
    qed
    ultimately show ?R by simp
  next
    assume r: ?R
    show ?L
    proof (intro allI impI)
      fix i assume "i \<le> length (c # t)"
      then show "re_match r (drop i (c # t)) = None" using r by (cases i) auto
    qed
  qed
  with Cons show ?case by (auto split: option.splits)
qed



lemma search_SomeD:
  "search r t = Some g \<Longrightarrow>
     \<exists>pre u rest. t = pre @ u \<and> re_match r u = Some (rest, g) \<and>
       (\<forall>i < length pre. re_match r (drop i pre @ u) = None)"
proof (induction t)
  case Nil
  then obtain rest where "re_match r [] = Some (rest, g)" by (auto split: option.splits)
  then show ?case by (intro exI [of _ "[]"] exI [of _ rest]) auto
next
  case (Cons c t)
  show ?case
  proof (cases "re_match r (c # t)")
    case None
    with Cons.prems have "search r t = Some g" by simp
    from Cons.IH [OF this] obtain pre u rest where
      h: "t = pre @ u" "re_match r u = Some (rest, g)"
         "\<forall>i < length pre. re_match r (drop i pre @ u) = None" by blast
    have "\<forall>i < length (c # pre). re_match r (drop i (c # pre) @ u) = None"
    proof (intro allI impI)
      fix i assume "i < length (c # pre)"
      then show "re_match r (drop i (c # pre) @ u) = None"
        using h None by (cases i) auto
    qed
    with h show ?thesis by (intro exI [of _ "c # pre"] exI [of _ u] exI [of _ rest]) simp
  next
    case (Some x)
    with Cons.prems have "re_match r (c # t) = Some (fst x, g)" by (cases x) auto
    then show ?thesis by (intro exI [of _ "[]"] exI [of _ "c # t"] exI [of _ "fst x"]) simp
  qed
qed

lemma matches_Seq_Lit:
  "matches (Seq (Lit l) r) t g = (if prefix l t then matches r (drop (length l) t) g else [])"
  by (simp add: matches_Seq matches_Lit)

lemma matches_Seq_Atom:
  "matches (Seq (Atom k) r) t g =
     (case t of [] \<Rightarrow> [] | c # t' \<Rightarrow> if in_class k c then matches r t' g else [])"
  by (simp add: matches_Seq matches_Atom split: list.splits)

lemma matches_Seq_Alt:
  "matches (Seq (Alt a b) r) t g = matches (Seq a r) t g @ matches (Seq b r) t g"
  by (simp add: matches_Seq matches_Alt)

lemma concat_map_concat_map:
  "concat (map f (concat (map h xs))) = concat (map (\<lambda>x. concat (map f (h x))) xs)"
  by (induction xs) auto

lemma matches_Seq_Seq:
  "matches (Seq (Seq a b) r) t g = matches (Seq a (Seq b r)) t g"
  by (simp add: matches_Seq concat_map_concat_map case_prod_unfold)

lemma set_matches_Seq:
  "set (matches (Seq a b) t g) = (\<Union>(t', g') \<in> set (matches a t g). set (matches b t' g'))"
  by (auto simp: matches_Seq)




lemma in_matches_Star_Atom:
  "(t', g') \<in> set (matches (Star (Atom k)) t g) \<Longrightarrow>
     g' = g \<and> (\<exists>s. t = s @ t' \<and> list_all (in_class k) s)"
proof (induction t)
  case Nil
  then show ?case by (simp add: matches_Star_Atom_Nil)
next
  case (Cons c t)
  show ?case
  proof (cases "in_class k c")
    case True
    with Cons.prems have "(t', g') \<in> set (matches (Star (Atom k)) t g) \<or> (t', g') = (c # t, g)"
      by (auto simp: matches_Star_Atom_Cons)
    then show ?thesis
    proof
      assume "(t', g') \<in> set (matches (Star (Atom k)) t g)"
      from Cons.IH [OF this] obtain s where "g' = g" "t = s @ t'" "list_all (in_class k) s" by blast
      with True show ?thesis by (intro conjI exI [of _ "c # s"]) auto
    next
      assume "(t', g') = (c # t, g)"
      then show ?thesis by (intro conjI exI [of _ "[]"]) auto
    qed
  next
    case False
    with Cons.prems have "(t', g') = (c # t, g)" by (auto simp: matches_Star_Atom_Cons)
    then show ?thesis by (intro conjI exI [of _ "[]"]) auto
  qed
qed

lemma matches_Plus_Atom:
  "matches (Plus (Atom k)) t g =
     (case t of [] \<Rightarrow> [] | c # t' \<Rightarrow> if in_class k c then matches (Star (Atom k)) t' g else [])"
  unfolding Plus_def matches_Seq_Atom by (rule refl)

lemma in_matches_Plus_Atom:
  assumes "(t', g') \<in> set (matches (Plus (Atom k)) t g)"
  shows "g' = g \<and> (\<exists>s. t = s @ t' \<and> s \<noteq> [] \<and> list_all (in_class k) s)"
proof (cases t)
  case Nil
  with assms show ?thesis by (simp add: matches_Plus_Atom)
next
  case (Cons c u)
  with assms have c: "in_class k c" and m: "(t', g') \<in> set (matches (Star (Atom k)) u g)"
    by (auto simp: matches_Plus_Atom split: if_splits)
  from in_matches_Star_Atom [OF m] obtain s where "g' = g" "u = s @ t'" "list_all (in_class k) s"
    by blast
  with c Cons show ?thesis by (intro conjI exI [of _ "c # s"]) auto
qed



lemma in_matches_Group_Plus_Atom:
  assumes "(t', g') \<in> set (matches (Group n (Plus (Atom k))) t g)"
  shows "\<exists>s. t = s @ t' \<and> s \<noteq> [] \<and> list_all (in_class k) s \<and> g' = g(n \<mapsto> s)"
proof -
  from assms obtain g'' where m: "(t', g'') \<in> set (matches (Plus (Atom k)) t g)"
    and g': "g' = g''(n \<mapsto> take (length t - length t') t)" by (auto simp: matches_Group)
  from in_matches_Plus_Atom [OF m] obtain s where "g'' = g" "t = s @ t'" "s \<noteq> []" "list_all (in_class k) s"
    by blast
  with g' show ?thesis by (intro exI [of _ s]) auto
qed

section \<open>Outcomes of \<open>parse_report\<close>\<close>

lemma ascii_nonempty: "ascii (c # s) @ x \<noteq> []"
  by (simp add: ascii_def)

lemma strptime_groups_error: "strptime_groups r f a = Inl e \<Longrightarrow> str_of_exn e \<noteq> []"
  by (auto simp: strptime_groups_def ascii_def split: option.splits list.splits prod.splits if_splits)

lemma datetime_date_error: "datetime_date y mo d = Inl e \<Longrightarrow> str_of_exn e \<noteq> []"
  by (auto simp: datetime_date_def ascii_def split: if_splits)

lemma strptime_dmY_error: "strptime_dmY a = Inl e \<Longrightarrow> str_of_exn e \<noteq> []"
  by (auto simp: strptime_dmY_def split: sum.splits dest: strptime_groups_error datetime_date_error)

lemma strptime_HM_error: "strptime_HM a = Inl e \<Longrightarrow> str_of_exn e \<noteq> []"
  by (auto simp: strptime_HM_def split: sum.splits dest: strptime_groups_error)

lemma py_float_error: "py_float a = Inl e \<Longrightarrow> str_of_exn e \<noteq> []"
  by (auto simp: py_float_def ascii_def split: option.splits if_splits)

lemma py_strip_error: "py_strip a = Inl e \<Longrightarrow> str_of_exn e \<noteq> []"
  by (auto simp: py_strip_def repr_def split: option.splits)

lemmas msg_defs = msg_date_def msg_vehicle_def msg_start_def msg_end_def msg_overtime_def msg_km_def

lemma outcome_ok_option:
  "outcome_ok a \<Longrightarrow> (\<And>v. x = Some v \<Longrightarrow> outcome_ok (f v)) \<Longrightarrow> outcome_ok (case_option a f x)"
  by (cases x) auto

lemma outcome_ok_sum:
  "(\<And>e. x = Inl e \<Longrightarrow> str_of_exn e \<noteq> []) \<Longrightarrow> (\<And>v. x = Inr v \<Longrightarrow> outcome_ok (f v)) \<Longrightarrow>
     outcome_ok (case_sum Inl f x)"
  by (cases x) (auto simp: outcome_ok_def)

lemma outcome_ok_missing: "e \<noteq> [] \<Longrightarrow> outcome_ok (Inr (None, Some e))"
  by (simp add: outcome_ok_def)

lemma outcome_ok_record: "outcome_ok (Inr (Some r, None))"
  by (simp add: outcome_ok_def)

lemma parse_body_ok: "outcome_ok (parse_body t)"
  unfolding parse_body_def
  apply (intro outcome_ok_option outcome_ok_sum outcome_ok_missing outcome_ok_record)
  apply (simp_all add: msg_defs strptime_dmY_error strptime_HM_error py_float_error py_strip_error
      split: if_splits option.splits)
  done


section \<open>What the patterns capture\<close>

lemma in_matches_Seq:
  "(t', g') \<in> set (matches (Seq a b) t g) \<longleftrightarrow>
     (\<exists>t1 g1. (t1, g1) \<in> set (matches a t g) \<and> (t', g') \<in> set (matches b t1 g1))"
  by (auto simp: matches_Seq)

lemma in_matches_Alt:
  "(t', g') \<in> set (matches (Alt a b) t g) \<longleftrightarrow>
     (t', g') \<in> set (matches a t g) \<or> (t', g') \<in> set (matches b t g)"
  by (simp add: matches_Alt)

lemma in_matches_Lit:
  "(t', g') \<in> set (matches (Lit l) t g) \<longleftrightarrow> prefix l t \<and> t' = drop (length l) t \<and> g' = g"
  by (auto simp: matches_Lit)

lemma in_matches_ws_int:
  assumes "(t', g') \<in> set (matches (Seq (Plus (Atom Space)) (Group n (Plus (Atom Digit)))) t g)"
  shows "\<exists>ws ds. t = ws @ ds @ t' \<and> ws \<noteq> [] \<and> list_all isspace ws \<and>
           ds \<noteq> [] \<and> list_all isdecimal ds \<and> g' = g(n \<mapsto> ds)"
proof -
  from assms obtain t1 g1 where
    a: "(t1, g1) \<in> set (matches (Plus (Atom Space)) t g)" and
    b: "(t', g') \<in> set (matches (Group n (Plus (Atom Digit))) t1 g1)"
    unfolding in_matches_Seq by blast
  from in_matches_Plus_Atom [OF a] obtain ws where
    ws: "g1 = g" "t = ws @ t1" "ws \<noteq> []" "list_all (in_class Space) ws" by blast
  from in_matches_Group_Plus_Atom [OF b] obtain ds where
    ds: "t1 = ds @ t'" "ds \<noteq> []" "list_all (in_class Digit) ds" "g' = g1(n \<mapsto> ds)" by blast
  from ws ds show ?thesis
    by (intro exI [of _ ws] exI [of _ ds]) (simp add: list_all_iff)
qed

text \<open>What a match of each pattern captures.\<close>

lemma KM_MKAD_captures:
  assumes "re_match KM_MKAD_PATTERN t = Some (rest, g)"
  shows "prefix lbl_Probeg_za_MKAD t \<and>
         (\<exists>ds. ds \<noteq> [] \<and> list_all isdecimal ds \<and> g = [1 \<mapsto> ds])"
proof -
  from re_match_SomeD [OF assms]
  have "(rest, g) \<in> set (matches KM_MKAD_PATTERN t Map.empty)" .
  then obtain t1 g1 where
    a: "(t1, g1) \<in> set (matches (Lit lbl_Probeg_za_MKAD) t Map.empty)" and
    b: "(rest, g) \<in> set (matches (Seq (Plus (Atom Space)) (Group 1 (Plus (Atom Digit)))) t1 g1)"
    unfolding KM_MKAD_PATTERN_def seqs.simps in_matches_Seq by blast
  from a have "prefix lbl_Probeg_za_MKAD t" "g1 = Map.empty" by (simp_all add: in_matches_Lit)
  with in_matches_ws_int [OF b] show ?thesis by auto
qed

lemma KM_captures:
  assumes "re_match KM_PATTERN t = Some (rest, g)"
  shows "(prefix lbl_Obshchiy_probeg t \<or> prefix lbl_Probeg_obshchiy t) \<and>
         (\<exists>ds. ds \<noteq> [] \<and> list_all isdecimal ds \<and> g = [1 \<mapsto> ds])"
proof -
  from re_match_SomeD [OF assms]
  have "(rest, g) \<in> set (matches KM_PATTERN t Map.empty)" .
  then obtain t1 g1 where
    a: "(t1, g1) \<in> set (matches (Alt (Lit lbl_Obshchiy_probeg) (Lit lbl_Probeg_obshchiy)) t Map.empty)" and
    b: "(rest, g) \<in> set (matches (Seq (Plus (Atom Space)) (Group 1 (Plus (Atom Digit)))) t1 g1)"
    unfolding KM_PATTERN_def seqs.simps alts.simps in_matches_Seq by blast
  from a have "prefix lbl_Obshchiy_probeg t \<or> prefix lbl_Probeg_obshchiy t" "g1 = Map.empty"
    by (auto simp: in_matches_Lit in_matches_Alt)
  with in_matches_ws_int [OF b] show ?thesis by auto
qed

lemma in_matches_Opt:
  "(t', g') \<in> set (matches (Opt r) t g) \<longleftrightarrow>
     (t', g') \<in> set (matches r t g) \<or> (t' = t \<and> g' = g)"
  by (auto simp: Opt_def in_matches_Alt in_matches_Lit)

lemma OVERTIME_captures:
  assumes "re_match OVERTIME_PATTERN t = Some (rest, g)"
  shows "(prefix lbl_Pererabotka t \<or> prefix lbl_Pererabotki t) \<and>
         (\<exists>h. h \<noteq> [] \<and> list_all isdecimal h \<and> g 1 = Some h) \<and>
         (g 2 = None \<or> (\<exists>m. m \<noteq> [] \<and> list_all isdecimal m \<and> g 2 = Some m))"
proof -
  from re_match_SomeD [OF assms]
  have "(rest, g) \<in> set (matches OVERTIME_PATTERN t Map.empty)" .
  then obtain t1 g1 t2 g2 t3 g3 where
    a: "(t1, g1) \<in> set (matches (Alt (Lit lbl_Pererabotka) (Lit lbl_Pererabotki)) t Map.empty)" and
    b: "(t2, g2) \<in> set (matches (Plus (Atom Space)) t1 g1)" and
    c: "(t3, g3) \<in> set (matches (Group 1 (Plus (Atom Digit))) t2 g2)" and
    d: "(rest, g) \<in> set (matches (Opt (Seq (Star (Atom Space)) (Group 2 (Plus (Atom Digit))))) t3 g3)"
    unfolding OVERTIME_PATTERN_def seqs.simps alts.simps in_matches_Seq by blast
  from a have l: "prefix lbl_Pererabotka t \<or> prefix lbl_Pererabotki t" and g1: "g1 = Map.empty"
    by (auto simp: in_matches_Lit in_matches_Alt)
  from in_matches_Plus_Atom [OF b] have g2: "g2 = g1" by simp
  from in_matches_Group_Plus_Atom [OF c] obtain h where
    h: "h \<noteq> []" "list_all isdecimal h" "g3 = g2(1 \<mapsto> h)" by (auto simp: list_all_iff)
  from d have "g = g3 \<or> (\<exists>t4 g4. (t4, g4) \<in> set (matches (Star (Atom Space)) t3 g3) \<and>
      (rest, g) \<in> set (matches (Group 2 (Plus (Atom Digit))) t4 g4))"
    unfolding in_matches_Opt in_matches_Seq by blast
  then show ?thesis
  proof
    assume "g = g3"
    with l h g1 g2 show ?thesis by auto
  next
    assume "\<exists>t4 g4. (t4, g4) \<in> set (matches (Star (Atom Space)) t3 g3) \<and>
      (rest, g) \<in> set (matches (Group 2 (Plus (Atom Digit))) t4 g4)"
    then obtain t4 g4 where e: "(t4, g4) \<in> set (matches (Star (Atom Space)) t3 g3)"
      and f: "(rest, g) \<in> set (matches (Group 2 (Plus (Atom Digit))) t4 g4)" by blast
    from in_matches_Star_Atom [OF e] have g4: "g4 = g3" by simp
    from in_matches_Group_Plus_Atom [OF f] obtain m where
      "m \<noteq> []" "list_all isdecimal m" "g = g4(2 \<mapsto> m)" by (auto simp: list_all_iff)
    with l h g1 g2 g4 show ?thesis by auto
  qed
qed

lemma VEHICLE_captures:
  assumes "re_match VEHICLE_PATTERN t = Some (rest, g)"
  shows "(prefix lbl_TS t \<or> prefix lbl_Smena t \<or> prefix lbl_Naimenovanie_TS t) \<and>
         (\<exists>cap. g 1 = Some cap)"
proof -
  from re_match_SomeD [OF assms]
  have "(rest, g) \<in> set (matches VEHICLE_PATTERN t Map.empty)" .
  then obtain t1 g1 t2 g2 where
    a: "(t1, g1) \<in> set (matches (Alt (Lit lbl_TS) (Alt (Lit lbl_Smena) (Lit lbl_Naimenovanie_TS))) t Map.empty)" and
    b: "(t2, g2) \<in> set (matches (Plus (Atom Space)) t1 g1)" and
    c: "(rest, g) \<in> set (matches (Group 1 (Plus (Atom (NotChr 10)))) t2 g2)"
    unfolding VEHICLE_PATTERN_def seqs.simps alts.simps in_matches_Seq by blast
  from a have "prefix lbl_TS t \<or> prefix lbl_Smena t \<or> prefix lbl_Naimenovanie_TS t"
    by (auto simp: in_matches_Lit in_matches_Alt)
  with in_matches_Group_Plus_Atom [OF c] show ?thesis by auto
qed

lemma START_label:
  assumes "re_match START_PATTERN t = Some (rest, g)"
  shows "prefix lbl_Nachalo_smeny t \<or> prefix lbl_Nachalo t"
proof -
  from re_match_SomeD [OF assms]
  have "(rest, g) \<in> set (matches START_PATTERN t Map.empty)" .
  then obtain t1 g1 where
    "(t1, g1) \<in> set (matches (Alt (Lit lbl_Nachalo_smeny) (Lit lbl_Nachalo)) t Map.empty)"
    unfolding START_PATTERN_def seqs.simps alts.simps in_matches_Seq by blast
  then show ?thesis by (auto simp: in_matches_Lit in_matches_Alt)
qed

lemma END_label:
  assumes "re_match END_PATTERN t = Some (rest, g)"
  shows "prefix lbl_Okonchanie_smeny t \<or> prefix lbl_Konets_smeny t \<or> prefix lbl_Okonchanie t"
proof -
  from re_match_SomeD [OF assms]
  have "(rest, g) \<in> set (matches END_PATTERN t Map.empty)" .
  then obtain t1 g1 where
    "(t1, g1) \<in> set (matches (Alt (Lit lbl_Okonchanie_smeny)
        (Alt (Lit lbl_Konets_smeny) (Lit lbl_Okonchanie))) t Map.empty)"
    unfolding END_PATTERN_def seqs.simps alts.simps in_matches_Seq by blast
  then show ?thesis by (auto simp: in_matches_Lit in_matches_Alt)
qed

lemma search_Some_re_match:
  "search r t = Some g \<Longrightarrow> \<exists>pre u rest. t = pre @ u \<and> re_match r u = Some (rest, g)"
  using search_SomeD [of r t g] by blast

lemma search_label_absent:
  assumes "\<And>u rest g. re_match r u = Some (rest, g) \<Longrightarrow> \<exists>l \<in> set ls. prefix l u"
    and "list_all (\<lambda>l. \<not> sublist l t) ls"
  shows "search r t = None"
proof (rule ccontr)
  assume "search r t \<noteq> None"
  then obtain g where "search r t = Some g" by auto
  from search_Some_re_match [OF this] obtain pre u rest where
    t: "t = pre @ u" and m: "re_match r u = Some (rest, g)" by blast
  from assms(1) [OF m] obtain l where l: "l \<in> set ls" "prefix l u" by blast
  then obtain s where "u = l @ s" by (auto simp: prefix_def)
  with t have "sublist l t" by (auto simp: sublist_def)
  with assms(2) l show False by (simp add: list_all_iff)
qed

lemma label_absent_search:
  assumes "f \<noteq> Date_field" and "label_absent f t"
  shows "search (pattern_of f) t = None"
proof (cases f)
  case Date_field
  with assms show ?thesis by simp
next
  case Vehicle_field
  show ?thesis unfolding Vehicle_field pattern_of.simps
    by (rule search_label_absent [where ls = "labels_of Vehicle_field"])
       (use assms(2) VEHICLE_captures in \<open>auto simp: Vehicle_field\<close>)
next
  case Start_field
  show ?thesis unfolding Start_field pattern_of.simps
    by (rule search_label_absent [where ls = "labels_of Start_field"])
       (use assms(2) START_label in \<open>auto simp: Start_field\<close>)
next
  case End_field
  show ?thesis unfolding End_field pattern_of.simps
    by (rule search_label_absent [where ls = "labels_of End_field"])
       (use assms(2) END_label in \<open>auto simp: End_field\<close>)
next
  case Overtime_field
  show ?thesis unfolding Overtime_field pattern_of.simps
    by (rule search_label_absent [where ls = "labels_of Overtime_field"])
       (use assms(2) OVERTIME_captures in \<open>auto simp: Overtime_field\<close>)
next
  case Km_field
  show ?thesis unfolding Km_field pattern_of.simps
    by (rule search_label_absent [where ls = "labels_of Km_field"])
       (use assms(2) KM_captures in \<open>auto simp: Km_field\<close>)
qed

lemma KM_MKAD_label_absent:
  "\<not> sublist lbl_Probeg_za_MKAD t \<Longrightarrow> search KM_MKAD_PATTERN t = None"
  by (rule search_label_absent [where ls = "[lbl_Probeg_za_MKAD]"])
     (use KM_MKAD_captures in auto)

lemma py_float_digits:
  "s \<noteq> [] \<Longrightarrow> list_all isdecimal s \<Longrightarrow> py_float (Some s) = Inr (real (int_of_digits s))"
  by (simp add: py_float_def)

lemma search_VEHICLE_group:
  "search VEHICLE_PATTERN t = Some g \<Longrightarrow> \<exists>cap. g 1 = Some cap"
  using search_Some_re_match [of VEHICLE_PATTERN t g] VEHICLE_captures by blast

lemma search_OVERTIME_groups:
  assumes "search OVERTIME_PATTERN t = Some g"
  shows "(\<exists>h. h \<noteq> [] \<and> list_all isdecimal h \<and> g 1 = Some h) \<and>
         (g 2 = None \<or> (\<exists>m. m \<noteq> [] \<and> list_all isdecimal m \<and> g 2 = Some m))"
proof -
  from search_Some_re_match [OF assms] obtain u rest where
    "re_match OVERTIME_PATTERN u = Some (rest, g)" by blast
  from OVERTIME_captures [OF this] show ?thesis by blast
qed

lemma search_KM_group:
  assumes "search KM_PATTERN t = Some g"
  shows "\<exists>k. k \<noteq> [] \<and> list_all isdecimal k \<and> g 1 = Some k"
proof -
  from search_Some_re_match [OF assms] obtain u rest where
    "re_match KM_PATTERN u = Some (rest, g)" by blast
  from KM_captures [OF this] show ?thesis by auto
qed

lemma search_KM_MKAD_group:
  assumes "search KM_MKAD_PATTERN t = Some g"
  shows "\<exists>k. k \<noteq> [] \<and> list_all isdecimal k \<and> g 1 = Some k"
proof -
  from search_Some_re_match [OF assms] obtain u rest where
    "re_match KM_MKAD_PATTERN u = Some (rest, g)" by blast
  from KM_MKAD_captures [OF this] show ?thesis by auto
qed

lemma date_ofD:
  "date_of t = Some d \<Longrightarrow> \<exists>g. search DATE_PATTERN t = Some g \<and> strptime_dmY (g 1) = Inr d"
  by (auto simp: date_of_def split: option.splits sum.splits)

lemma start_ofD:
  "start_of t = Some x \<Longrightarrow> \<exists>g. search START_PATTERN t = Some g \<and> strptime_HM (g 1) = Inr x"
  by (auto simp: start_of_def split: option.splits sum.splits)

lemma end_ofD:
  "end_of t = Some x \<Longrightarrow> \<exists>g. search END_PATTERN t = Some g \<and> strptime_HM (g 1) = Inr x"
  by (auto simp: end_of_def split: option.splits sum.splits)

text \<open>The record that \<open>parse_report\<close> builds when the six required fields are found and convert.\<close>

lemma parse_report_success:
  assumes "date_of t = Some d" "search VEHICLE_PATTERN t = Some vm" "start_of t = Some s"
    "end_of t = Some e" "search OVERTIME_PATTERN t = Some om" "search KM_PATTERN t = Some km"
  shows "\<exists>r. parse_report t = (Some r, None) \<and>
           date r = str_of_date d \<and>
           (\<exists>cap. vm 1 = Some cap \<and> vehicle r = strip cap) \<and>
           start_time r = str_of_time s \<and> end_time r = str_of_time e \<and>
           work_hours r = total_seconds_between d s e / 3600 \<and>
           (\<exists>h. om 1 = Some h \<and>
              overtime r = real (int_of_digits h) +
                (case om 2 of None \<Rightarrow> 0 | Some m \<Rightarrow> real (int_of_digits m)) / 60) \<and>
           (\<exists>k. km 1 = Some k \<and> total_km r = real (int_of_digits k)) \<and>
           (case search KM_MKAD_PATTERN t of
              None \<Rightarrow> km_mkad r = 0
            | Some g \<Rightarrow> \<exists>k. g 1 = Some k \<and> km_mkad r = real (int_of_digits k))"
proof -
  from date_ofD [OF assms(1)] obtain dm where
    dm: "search DATE_PATTERN t = Some dm" "strptime_dmY (dm 1) = Inr d" by blast
  from search_VEHICLE_group [OF assms(2)] obtain cap where
    cap: "vm 1 = Some cap" by blast
  from start_ofD [OF assms(3)] obtain sm where
    sm: "search START_PATTERN t = Some sm" "strptime_HM (sm 1) = Inr s" by blast
  from end_ofD [OF assms(4)] obtain em where
    em: "search END_PATTERN t = Some em" "strptime_HM (em 1) = Inr e" by blast
  from search_OVERTIME_groups [OF assms(5)] obtain h where
    h: "h \<noteq> []" "list_all isdecimal h" "om 1 = Some h" and
    m: "om 2 = None \<or> (\<exists>m. m \<noteq> [] \<and> list_all isdecimal m \<and> om 2 = Some m)" by blast
  from search_KM_group [OF assms(6)] obtain k where
    k: "k \<noteq> []" "list_all isdecimal k" "km 1 = Some k" by blast
  have mkad: "search KM_MKAD_PATTERN t = None \<or>
      (\<exists>g k'. k' \<noteq> [] \<and> list_all isdecimal k' \<and> search KM_MKAD_PATTERN t = Some g \<and> g 1 = Some k')"
    using search_KM_MKAD_group [of t] by (cases "search KM_MKAD_PATTERN t") auto
  from m mkad show ?thesis
    unfolding parse_report_def parse_body_def
    by (auto simp del: One_nat_def
        simp add: dm cap assms(2) sm em assms(5) h k assms(6) py_strip_def py_float_digits)
qed

section \<open>The order of extraction\<close>

lemma valid_Date:
  "field_valid Date_field t \<Longrightarrow>
     \<exists>dm d. search DATE_PATTERN t = Some dm \<and> strptime_dmY (dm 1) = Inr d"
  using date_ofD [of t] by auto

lemma valid_Vehicle:
  "field_valid Vehicle_field t \<Longrightarrow> \<exists>vm cap. search VEHICLE_PATTERN t = Some vm \<and> vm 1 = Some cap"
  using search_VEHICLE_group [of t] by auto

lemma valid_Start:
  "field_valid Start_field t \<Longrightarrow>
     \<exists>sm s. search START_PATTERN t = Some sm \<and> strptime_HM (sm 1) = Inr s"
  using start_ofD [of t] by auto

lemma valid_End:
  "field_valid End_field t \<Longrightarrow>
     \<exists>em e. search END_PATTERN t = Some em \<and> strptime_HM (em 1) = Inr e"
  using end_ofD [of t] by auto

lemma valid_Overtime:
  "field_valid Overtime_field t \<Longrightarrow>
     \<exists>om h. search OVERTIME_PATTERN t = Some om \<and> h \<noteq> [] \<and> list_all isdecimal h \<and>
       om 1 = Some h \<and> (om 2 = None \<or> (\<exists>m. m \<noteq> [] \<and> list_all isdecimal m \<and> om 2 = Some m))"
  using search_OVERTIME_groups [of t] by auto

text \<open>The first field, in the order of extraction, that is not found decides the outcome.\<close>

lemma parse_report_missing:
  assumes "\<forall>f'. rank f' < rank f \<longrightarrow> field_valid f' t"
    and "search (pattern_of f) t = None"
  shows "parse_report t = (None, Some (missing_message f))"
proof -
  have v: "\<And>f'. rank f' < rank f \<Longrightarrow> field_valid f' t" using assms(1) by blast
  show ?thesis
  proof (cases f)
  case Date_field
  with assms(2) show ?thesis by (simp add: parse_report_def parse_body_def)
next
  case Vehicle_field
  have "field_valid Date_field t"
    by (rule v, simp add: Vehicle_field)+
  from valid_Date [OF this] show ?thesis using assms(2)
    by (auto simp del: One_nat_def simp add: Vehicle_field parse_report_def parse_body_def)
next
  case Start_field
  have "field_valid Date_field t" "field_valid Vehicle_field t"
    by (rule v, simp add: Start_field)+
  from valid_Date [OF this(1)] valid_Vehicle [OF this(2)] show ?thesis using assms(2)
    by (auto simp del: One_nat_def
        simp add: Start_field parse_report_def parse_body_def py_strip_def)
next
  case End_field
  have "field_valid Date_field t" "field_valid Vehicle_field t" "field_valid Start_field t"
    by (rule v, simp add: End_field)+
  from valid_Date [OF this(1)] valid_Vehicle [OF this(2)] valid_Start [OF this(3)]
  show ?thesis using assms(2)
    by (auto simp del: One_nat_def
        simp add: End_field parse_report_def parse_body_def py_strip_def)
next
  case Overtime_field
  have "field_valid Date_field t" "field_valid Vehicle_field t" "field_valid Start_field t" "field_valid End_field t"
    by (rule v, simp add: Overtime_field)+
  from valid_Date [OF this(1)] valid_Vehicle [OF this(2)] valid_Start [OF this(3)]
    valid_End [OF this(4)]
  show ?thesis using assms(2)
    by (auto simp del: One_nat_def
        simp add: Overtime_field parse_report_def parse_body_def py_strip_def)
next
  case Km_field
  have "field_valid Date_field t" "field_valid Vehicle_field t" "field_valid Start_field t" "field_valid End_field t" "field_valid Overtime_field t"
    by (rule v, simp add: Km_field)+
  from valid_Date [OF this(1)] valid_Vehicle [OF this(2)] valid_Start [OF this(3)]
    valid_End [OF this(4)] valid_Overtime [OF this(5)]
  show ?thesis using assms(2)
    by (auto simp del: One_nat_def
        simp add: Km_field parse_report_def parse_body_def py_strip_def py_float_digits)
  qed
qed

text \<open>A value that is found and does not convert decides the outcome.\<close>

lemma parse_report_date_fails:
  assumes "search DATE_PATTERN t = Some g" "strptime_dmY (g 1) = Inl e"
  shows "parse_report t = (None, Some (str_of_exn e))"
  using assms by (simp del: One_nat_def add: parse_report_def parse_body_def)

lemma parse_report_start_fails:
  assumes "field_valid Date_field t" "field_valid Vehicle_field t"
    "search START_PATTERN t = Some g" "strptime_HM (g 1) = Inl e"
  shows "parse_report t = (None, Some (str_of_exn e))"
  using valid_Date [OF assms(1)] valid_Vehicle [OF assms(2)] assms(3,4)
  by (auto simp del: One_nat_def simp add: parse_report_def parse_body_def py_strip_def)

lemma parse_report_end_fails:
  assumes "field_valid Date_field t" "field_valid Vehicle_field t" "field_valid Start_field t"
    "search END_PATTERN t = Some g" "strptime_HM (g 1) = Inl e"
  shows "parse_report t = (None, Some (str_of_exn e))"
  using valid_Date [OF assms(1)] valid_Vehicle [OF assms(2)] valid_Start [OF assms(3)] assms(4,5)
  by (auto simp del: One_nat_def simp add: parse_report_def parse_body_def py_strip_def)

lemma missing_message_inj: "missing_message f = missing_message f' \<Longrightarrow> f = f'"
  by (cases f; cases f') (simp_all add: msg_defs)

section \<open>The date pattern\<close>

lemma date_shape_length: "date_shape d \<Longrightarrow> length d = 10"
  by (induction d rule: date_shape.induct) auto

lemma in_matches_Atom:
  "(t', g') \<in> set (matches (Atom k) t g) \<longleftrightarrow> (\<exists>c. t = c # t' \<and> in_class k c \<and> g' = g)"
  by (cases t) (auto simp: matches_Atom)

lemma in_matches_Lit1:
  "(t', g') \<in> set (matches (Lit [a]) t g) \<longleftrightarrow> t = a # t' \<and> g' = g"
  by (cases t) (auto simp: matches_Lit)

lemma in_matches_Group:
  "(t', g') \<in> set (matches (Group n r) t g) \<longleftrightarrow>
     (\<exists>g''. (t', g'') \<in> set (matches r t g) \<and> g' = g''(n \<mapsto> take (length t - length t') t))"
  by (auto simp: matches_Group)

lemma in_matches_DATE:
  "(t', g') \<in> set (matches DATE_PATTERN t g) \<Longrightarrow> 10 \<le> length t"
  unfolding DATE_PATTERN_def digits2_def digits4_def seqs.simps ascii_def
  by (auto simp: in_matches_Group in_matches_Seq in_matches_Atom in_matches_Lit1)

lemma matches_DATE_10:
  "matches DATE_PATTERN (c0 # c1 # c2 # c3 # c4 # c5 # c6 # c7 # c8 # c9 # rest) g =
     (if date_shape [c0, c1, c2, c3, c4, c5, c6, c7, c8, c9]
      then [(rest, g(1 \<mapsto> [c0, c1, c2, c3, c4, c5, c6, c7, c8, c9]))] else [])"
  unfolding DATE_PATTERN_def digits2_def digits4_def seqs.simps ascii_def
  by (simp add: matches_Group matches_Seq_Seq matches_Seq_Atom matches_Seq_Lit matches_Atom)

lemma matches_DATE:
  "matches DATE_PATTERN t g =
     (if date_shape (take 10 t) then [(drop 10 t, g(1 \<mapsto> take 10 t))] else [])"
proof (cases "10 \<le> length t")
  case True
  then obtain c0 c1 c2 c3 c4 c5 c6 c7 c8 c9 rest where
    "t = c0 # c1 # c2 # c3 # c4 # c5 # c6 # c7 # c8 # c9 # rest"
    by (auto simp: eval_nat_numeral Suc_le_length_iff)
  then show ?thesis by (simp add: matches_DATE_10)
next
  case False
  then have "matches DATE_PATTERN t g = []"
    using in_matches_DATE [of _ _ t g] by (cases "matches DATE_PATTERN t g") auto
  moreover have "\<not> date_shape (take 10 t)" using False date_shape_length [of "take 10 t"] by auto
  ultimately show ?thesis by simp
qed

lemma re_match_DATE:
  "re_match DATE_PATTERN t =
     (if date_shape (take 10 t) then Some (drop 10 t, [1 \<mapsto> take 10 t]) else None)"
  by (simp add: re_match_def matches_DATE)

lemma search_DATE: "search DATE_PATTERN t = map_option (\<lambda>d. [1 \<mapsto> d]) (first_date_shape t)"
proof (induction t)
  case Nil
  show ?case by (simp add: re_match_DATE)
next
  case (Cons c t)
  show ?case
  proof (cases "date_shape (take 10 (c # t))")
    case True
    then show ?thesis
      by (simp only: search.simps re_match_DATE first_date_shape.simps if_True option.case
          prod.case option.map)
  next
    case False
    then show ?thesis
      by (simp only: search.simps re_match_DATE first_date_shape.simps if_False option.case Cons)
  qed
qed

lemma first_date_shape_Some:
  "first_date_shape t = Some d \<Longrightarrow> date_shape d \<and> (\<exists>pre post. t = pre @ d @ post)"
proof (induction t)
  case Nil
  then show ?case by simp
next
  case (Cons c t)
  show ?case
  proof (cases "date_shape (take 10 (c # t))")
    case True
    with Cons.prems have d: "d = take 10 (c # t)" by simp
    have "c # t = [] @ d @ drop 10 (c # t)" unfolding d by simp
    with True d show ?thesis by blast
  next
    case False
    with Cons.prems have "first_date_shape t = Some d" by simp
    from Cons.IH [OF this] obtain pre post where "date_shape d" "t = pre @ d @ post" by blast
    then have "c # t = (c # pre) @ d @ post" by simp
    with \<open>date_shape d\<close> show ?thesis by blast
  qed
qed

lemma first_date_shape_None:
  "first_date_shape (pre @ d @ post) = None \<Longrightarrow> \<not> date_shape d"
proof (induction pre)
  case Nil
  show ?case
  proof
    assume d: "date_shape d"
    then have "take 10 (d @ post) = d" using date_shape_length [OF d] by simp
    with d Nil show False by (cases "d @ post") (auto split: if_splits)
  qed
next
  case (Cons c pre)
  then show ?case by (auto split: if_splits)
qed

section \<open>Evaluation on a given text\<close>

text \<open>Evaluation of the searches on a given text: a position is tried only where the first
  character of a label, or a digit of a date, stands.\<close>

lemma search_skip:
  "re_match r (c # t) = None \<Longrightarrow> search r (c # t) = search r t"
  by simp

lemma date_shape_hd: "date_shape (c # s) \<Longrightarrow> isdecimal c"
  by (induction "c # s" rule: date_shape.induct) auto

lemma first_date_shape_skip:
  "first_date_shape (c # t) =
     (if isdecimal c then (if date_shape (take 10 (c # t)) then Some (take 10 (c # t))
                           else first_date_shape t)
      else first_date_shape t)"
  using date_shape_hd [of c "take 9 t"] by auto

lemma re_match_not_NoneD: "re_match r t \<noteq> None \<Longrightarrow> \<exists>rest g. re_match r t = Some (rest, g)"
  by auto

lemma search_VEHICLE_Cons:
  "search VEHICLE_PATTERN (c # t) =
     (if c = 1058 \<or> c = 1057 \<or> c = 1053
      then (case re_match VEHICLE_PATTERN (c # t) of
              None \<Rightarrow> search VEHICLE_PATTERN t | Some (_, g) \<Rightarrow> Some g)
      else search VEHICLE_PATTERN t)"
proof -
  have "re_match VEHICLE_PATTERN (c # t) = None" if "\<not> (c = 1058 \<or> c = 1057 \<or> c = 1053)"
    using that VEHICLE_captures [of "c # t"]
    by (cases "re_match VEHICLE_PATTERN (c # t)")
       (auto simp: lbl_TS_def lbl_Smena_def lbl_Naimenovanie_TS_def)
  then show ?thesis by auto
qed

lemma search_START_Cons:
  "search START_PATTERN (c # t) =
     (if c = 1053
      then (case re_match START_PATTERN (c # t) of
              None \<Rightarrow> search START_PATTERN t | Some (_, g) \<Rightarrow> Some g)
      else search START_PATTERN t)"
proof -
  have "re_match START_PATTERN (c # t) = None" if "c \<noteq> 1053"
    using that START_label [of "c # t"]
    by (cases "re_match START_PATTERN (c # t)")
       (auto simp: lbl_Nachalo_smeny_def lbl_Nachalo_def)
  then show ?thesis by auto
qed

lemma search_END_Cons:
  "search END_PATTERN (c # t) =
     (if c = 1054 \<or> c = 1050
      then (case re_match END_PATTERN (c # t) of
              None \<Rightarrow> search END_PATTERN t | Some (_, g) \<Rightarrow> Some g)
      else search END_PATTERN t)"
proof -
  have "re_match END_PATTERN (c # t) = None" if "\<not> (c = 1054 \<or> c = 1050)"
    using that END_label [of "c # t"]
    by (cases "re_match END_PATTERN (c # t)")
       (auto simp: lbl_Okonchanie_smeny_def lbl_Konets_smeny_def lbl_Okonchanie_def)
  then show ?thesis by auto
qed

lemma search_OVERTIME_Cons:
  "search OVERTIME_PATTERN (c # t) =
     (if c = 1055
      then (case re_match OVERTIME_PATTERN (c # t) of
              None \<Rightarrow> search OVERTIME_PATTERN t | Some (_, g) \<Rightarrow> Some g)
      else search OVERTIME_PATTERN t)"
proof -
  have "re_match OVERTIME_PATTERN (c # t) = None" if "c \<noteq> 1055"
    using that OVERTIME_captures [of "c # t"]
    by (cases "re_match OVERTIME_PATTERN (c # t)")
       (auto simp: lbl_Pererabotka_def lbl_Pererabotki_def)
  then show ?thesis by auto
qed

lemma search_KM_Cons:
  "search KM_PATTERN (c # t) =
     (if c = 1054 \<or> c = 1055
      then (case re_match KM_PATTERN (c # t) of
              None \<Rightarrow> search KM_PATTERN t | Some (_, g) \<Rightarrow> Some g)
      else search KM_PATTERN t)"
proof -
  have "re_match KM_PATTERN (c # t) = None" if "\<not> (c = 1054 \<or> c = 1055)"
    using that KM_captures [of "c # t"]
    by (cases "re_match KM_PATTERN (c # t)")
       (auto simp: lbl_Obshchiy_probeg_def lbl_Probeg_obshchiy_def)
  then show ?thesis by auto
qed

lemma search_KM_MKAD_Cons:
  "search KM_MKAD_PATTERN (c # t) =
     (if c = 1055
      then (case re_match KM_MKAD_PATTERN (c # t) of
              None \<Rightarrow> search KM_MKAD_PATTERN t | Some (_, g) \<Rightarrow> Some g)
      else search KM_MKAD_PATTERN t)"
proof -
  have "re_match KM_MKAD_PATTERN (c # t) = None" if "c \<noteq> 1055"
    using that KM_MKAD_captures [of "c # t"]
    by (cases "re_match KM_MKAD_PATTERN (c # t)")
       (auto simp: lbl_Probeg_za_MKAD_def)
  then show ?thesis by auto
qed

lemma search_Nil_label:
  "search VEHICLE_PATTERN [] = None" "search START_PATTERN [] = None"
  "search END_PATTERN [] = None" "search OVERTIME_PATTERN [] = None"
  "search KM_PATTERN [] = None" "search KM_MKAD_PATTERN [] = None"
  using VEHICLE_captures [of "[]"] START_label [of "[]"] END_label [of "[]"]
    OVERTIME_captures [of "[]"] KM_captures [of "[]"] KM_MKAD_captures [of "[]"]
  by (auto simp: lbl_TS_def lbl_Smena_def lbl_Naimenovanie_TS_def lbl_Nachalo_smeny_def
      lbl_Nachalo_def lbl_Okonchanie_smeny_def lbl_Konets_smeny_def lbl_Okonchanie_def
      lbl_Pererabotka_def lbl_Pererabotki_def lbl_Obshchiy_probeg_def lbl_Probeg_obshchiy_def
      lbl_Probeg_za_MKAD_def
      split: option.splits)

lemmas search_eval = search_VEHICLE_Cons search_START_Cons search_END_Cons search_OVERTIME_Cons
  search_KM_Cons search_KM_MKAD_Cons search_Nil_label search_DATE first_date_shape_skip

lemmas pattern_defs =
  arg_cong [where f = re_match, OF VEHICLE_PATTERN_def]
  arg_cong [where f = re_match, OF START_PATTERN_def]
  arg_cong [where f = re_match, OF END_PATTERN_def]
  arg_cong [where f = re_match, OF OVERTIME_PATTERN_def]
  arg_cong [where f = re_match, OF KM_PATTERN_def]
  arg_cong [where f = re_match, OF KM_MKAD_PATTERN_def]
  clock_def digits2_def digits4_def Plus_def Opt_def

lemmas label_defs = lbl_TS_def lbl_Smena_def lbl_Naimenovanie_TS_def lbl_Nachalo_smeny_def
  lbl_Nachalo_def lbl_Okonchanie_smeny_def lbl_Konets_smeny_def lbl_Okonchanie_def
  lbl_Pererabotka_def lbl_Pererabotki_def lbl_Obshchiy_probeg_def lbl_Probeg_obshchiy_def
  lbl_Probeg_za_MKAD_def

lemmas matches_eval = re_match_def matches_Seq_Lit matches_Seq_Alt matches_Seq_Seq
  matches_Seq_Atom matches_Atom matches_Lit matches_Alt matches_Group matches_Seq
  matches_Star_Atom_Nil matches_Star_Atom_Cons

lemmas char_eval = isdecimal_small decimal_value_small isspace_def whitespace_def ascii_def

section \<open>First matches\<close>
















section \<open>What \<open>strptime\<close> accepts\<close>







text \<open>A date that \<open>strptime\<close> accepts is a day of the calendar.\<close>

lemma strptime_dmY_range:
  assumes "strptime_dmY a = Inr (Date y mo d)"
  shows "1 \<le> y \<and> y \<le> 9999 \<and> 1 \<le> mo \<and> mo \<le> 12 \<and> 1 \<le> d \<and> d \<le> days_in_month y mo"
  using assms
  by (auto simp: strptime_dmY_def datetime_date_def split: sum.splits if_splits)

section \<open>Evaluation of the example reports\<close>

lemmas text_defs = report_example_def report_overnight_def report_25_99_def report_no_km_def
  report_no_times_def report_no_mkad_def report_mkad_words_def report_date_last_def
  before_overtime_def after_overtime_def report_vehicle_next_line_def
  line_date_def line_vehicle_def line_start_def line_end_def line_overtime_def line_km_def
  line_mkad_def Gazel_def

lemmas eval = search_eval pattern_defs label_defs matches_eval char_eval

lemmas conv_eval = date_of_def start_of_def end_of_def strptime_dmY_def strptime_HM_def
  strptime_groups_def format_dmY_def format_HM_def directive_d_def directive_m_def
  directive_Y_def directive_H_def directive_M_def int_group_def int_of_digits_def
  datetime_date_def days_in_month_def isleap_def

section \<open>The claims\<close>

subsection \<open>One populated side (C2)\<close>

text \<open>
  C2: for every input text \<open>parse_report\<close> returns, and returns exactly one populated side:
  a record with no error, or no record with an error message, which is never the empty text.
  Every exception raised inside the body is caught and turned into its message.
\<close>

theorem parse_report_one_side:
  "(\<exists>r. parse_report t = (Some r, None)) \<or> (\<exists>e. e \<noteq> [] \<and> parse_report t = (None, Some e))"
  using parse_body_ok [of t] by (cases "parse_body t") (auto simp: parse_report_def outcome_ok_def)

subsection \<open>Worked hours (C1)\<close>









lemma required_validD:
  assumes "required_valid t"
  shows "\<exists>d vm s e om km. date_of t = Some d \<and> search VEHICLE_PATTERN t = Some vm \<and>
           start_of t = Some s \<and> end_of t = Some e \<and> search OVERTIME_PATTERN t = Some om \<and>
           search KM_PATTERN t = Some km"
  using assms by (auto simp: required_valid_def)



lemma r2599_date: "date_of report_25_99 = Some (Date 2024 3 15)"
  by (simp del: search.simps first_date_shape.simps add: text_defs eval conv_eval)

lemma r2599_vehicle: "search VEHICLE_PATTERN report_25_99 \<noteq> None"
  by (simp del: search.simps first_date_shape.simps add: text_defs eval)

lemma r2599_start:
  "map_option (\<lambda>g. g 1) (search START_PATTERN report_25_99) = Some (Some (ascii ''25:99''))"
  by (simp del: search.simps first_date_shape.simps add: text_defs eval)




lemma strptime_25_99:
  "strptime_HM (Some (ascii ''25:99'')) =
     Inl (ValueError (ascii ''time data '' @ repr (ascii ''25:99'') @
                      ascii '' does not match format '' @ repr (ascii ''%H:%M'')))"
  by (simp add: conv_eval matches_eval char_eval)

lemma r2599_conversion:
  "conversion_error Start_field report_25_99 =
     Some (ValueError (ascii ''time data '' @ repr (ascii ''25:99'') @
                       ascii '' does not match format '' @ repr (ascii ''%H:%M'')))"
  using r2599_start strptime_25_99 by (auto split: option.splits)



subsection \<open>Values that do not convert (C7)\<close>

lemma below_Start:
  "field_valid Date_field t \<Longrightarrow> field_valid Vehicle_field t \<Longrightarrow>
     \<forall>f'. rank f' < rank Start_field \<longrightarrow> field_valid f' t"
proof (intro allI impI)
  fix f' assume "field_valid Date_field t" "field_valid Vehicle_field t" "rank f' < rank Start_field"
  then show "field_valid f' t" by (cases f') simp_all
qed

text \<open>
  C7: a value that has the shape its pattern asks for, so that the extractor finds it, and
  that does not convert (the date, the start or the end of the shift; the fields before it
  being valid) makes \<open>parse_report\<close> fail with no record, and the error message is the
  diagnostic of the conversion. The start time 25:99 is such a value.
\<close>

theorem conversion_failure_reported:
  assumes "conversion_error f t = Some e"
    and "\<forall>f'. rank f' < rank f \<longrightarrow> field_valid f' t"
  shows "search (pattern_of f) t \<noteq> None \<and> parse_report t = (None, Some (str_of_exn e))"
proof -
  have v: "field_valid f' t" if "rank f' < rank f" for f' using assms(2) that by blast
  show ?thesis
  proof (cases f)
    case Date_field
    with assms(1) obtain g where "search DATE_PATTERN t = Some g" "strptime_dmY (g 1) = Inl e"
      by (auto split: option.splits sum.splits)
    with parse_report_date_fails [OF this] show ?thesis by (simp add: Date_field)
  next
    case Start_field
    with assms(1) obtain g where g: "search START_PATTERN t = Some g" "strptime_HM (g 1) = Inl e"
      by (auto split: option.splits sum.splits)
    have "field_valid Date_field t" "field_valid Vehicle_field t"
      by (rule v, simp add: Start_field)+
    from parse_report_start_fails [OF this g] g(1) show ?thesis by (simp add: Start_field)
  next
    case End_field
    with assms(1) obtain g where g: "search END_PATTERN t = Some g" "strptime_HM (g 1) = Inl e"
      by (auto split: option.splits sum.splits)
    have "field_valid Date_field t" "field_valid Vehicle_field t" "field_valid Start_field t"
      by (rule v, simp add: End_field)+
    from parse_report_end_fails [OF this g] g(1) show ?thesis by (simp add: End_field)
  next
    case Vehicle_field
    with assms(1) show ?thesis by simp
  next
    case Overtime_field
    with assms(1) show ?thesis by simp
  next
    case Km_field
    with assms(1) show ?thesis by simp
  qed
qed

theorem conversion_failure_reported_witness:
  "conversion_error Start_field report_25_99 =
     Some (ValueError (ascii ''time data '' @ repr (ascii ''25:99'') @
                       ascii '' does not match format '' @ repr (ascii ''%H:%M''))) \<and>
   field_valid Date_field report_25_99 \<and> field_valid Vehicle_field report_25_99 \<and>
   search START_PATTERN report_25_99 \<noteq> None \<and>
   parse_report report_25_99 =
     (None, Some (ascii ''time data '' @ repr (ascii ''25:99'') @
                  ascii '' does not match format '' @ repr (ascii ''%H:%M'')))"
proof -
  have v: "field_valid Date_field report_25_99" "field_valid Vehicle_field report_25_99"
    using r2599_date r2599_vehicle by simp_all
  from conversion_failure_reported [OF r2599_conversion below_Start [OF v]] v r2599_conversion
  show ?thesis by simp
qed

subsection \<open>The order of extraction (C4)\<close>

text \<open>
  C4, as amended: the fields are extracted in the order date, vehicle, start time, end time,
  overtime, total distance, and the first of them for which the extractor finds nothing
  ends the run: the error is the message of that field, whatever is missing after it,
  provided that the values found before it convert. A value found before it that does not
  convert ends the run first, with its diagnostic (see the counterexample). One message is
  returned.
\<close>

theorem first_missing_field:
  assumes "\<forall>f'. rank f' < rank f \<longrightarrow> field_valid f' t"
    and "search (pattern_of f) t = None"
  shows "parse_report t = (None, Some (missing_message f))"
  using assms by (rule parse_report_missing)

lemma no_times_date: "date_of report_no_times = Some (Date 2024 3 15)"
  by (simp del: search.simps first_date_shape.simps add: text_defs eval conv_eval)

lemma no_times_vehicle: "search VEHICLE_PATTERN report_no_times \<noteq> None"
  by (simp del: search.simps first_date_shape.simps add: text_defs eval)

lemma no_times_missing:
  "search START_PATTERN report_no_times = None" "search END_PATTERN report_no_times = None"
  "search KM_PATTERN report_no_times = None"
  by (simp_all del: search.simps first_date_shape.simps add: text_defs eval)

theorem first_missing_field_witness:
  "field_valid Date_field report_no_times \<and> field_valid Vehicle_field report_no_times \<and>
   search START_PATTERN report_no_times = None \<and> search END_PATTERN report_no_times = None \<and>
   search KM_PATTERN report_no_times = None \<and>
   parse_report report_no_times = (None, Some msg_start)"
proof -
  have v: "field_valid Date_field report_no_times" "field_valid Vehicle_field report_no_times"
    using no_times_date no_times_vehicle by simp_all
  from first_missing_field [of Start_field report_no_times, OF below_Start [OF v]]
    no_times_missing v
  show ?thesis by simp
qed

lemma bad_date_outcome:
  "parse_report (ascii ''99.99.9999'') =
     (None, Some (ascii ''time data '' @ repr (ascii ''99.99.9999'') @
                  ascii '' does not match format '' @ repr (ascii ''%d.%m.%Y'')))"
proof -
  have "map_option (\<lambda>g. g 1) (search DATE_PATTERN (ascii ''99.99.9999'')) =
      Some (Some (ascii ''99.99.9999''))"
    by (simp del: search.simps first_date_shape.simps add: eval)
  then obtain g where g: "search DATE_PATTERN (ascii ''99.99.9999'') = Some g"
    "g 1 = Some (ascii ''99.99.9999'')" by auto
  have "strptime_dmY (Some (ascii ''99.99.9999'')) =
     Inl (ValueError (ascii ''time data '' @ repr (ascii ''99.99.9999'') @
                      ascii '' does not match format '' @ repr (ascii ''%d.%m.%Y'')))"
    by (simp add: conv_eval matches_eval char_eval)
  with parse_report_date_fails [OF g(1)] g(2) show ?thesis by simp
qed

theorem first_missing_field_counterexample:
  "label_absent Vehicle_field (ascii ''99.99.9999'') \<and>
   label_absent Start_field (ascii ''99.99.9999'') \<and>
   label_absent End_field (ascii ''99.99.9999'') \<and>
   label_absent Overtime_field (ascii ''99.99.9999'') \<and>
   label_absent Km_field (ascii ''99.99.9999'') \<and>
   parse_report (ascii ''99.99.9999'') =
     (None, Some (ascii ''time data '' @ repr (ascii ''99.99.9999'') @
                  ascii '' does not match format '' @ repr (ascii ''%d.%m.%Y''))) \<and>
   parse_report (ascii ''99.99.9999'') \<noteq> (None, Some (missing_message Vehicle_field))"
  unfolding bad_date_outcome
  by (simp add: label_defs ascii_def sublist_code(3) msg_vehicle_def repr_def)

subsection \<open>One missing label (C3)\<close>

lemma label_absent_search_None:
  assumes "label_absent f t"
  shows "search (pattern_of f) t = None"
proof (cases "f = Date_field")
  case True
  with assms show ?thesis by (simp add: search_DATE)
next
  case False
  from label_absent_search [OF this assms] show ?thesis .
qed

text \<open>
  C3: when the label of exactly one of the six required fields is absent from the text (for
  the date: no text of the shape DD.MM.YYYY), and every other required field is present with
  a valid value, \<open>parse_report\<close> returns no record and the error message of the missing
  field, which is the message of no other field.
\<close>

theorem missing_one_label:
  assumes "label_absent f t"
    and "\<forall>f'. f' \<noteq> f \<longrightarrow> field_valid f' t"
  shows "parse_report t = (None, Some (missing_message f)) \<and>
         (\<forall>f'. f' \<noteq> f \<longrightarrow> missing_message f' \<noteq> missing_message f)"
proof -
  have "\<forall>f'. rank f' < rank f \<longrightarrow> field_valid f' t" using assms(2) by auto
  from parse_report_missing [OF this label_absent_search_None [OF assms(1)]]
  show ?thesis using missing_message_inj by blast
qed

lemma no_km_valid:
  "date_of report_no_km \<noteq> None" "search VEHICLE_PATTERN report_no_km \<noteq> None"
  "start_of report_no_km \<noteq> None" "end_of report_no_km \<noteq> None"
  "search OVERTIME_PATTERN report_no_km \<noteq> None"
  by (simp_all del: search.simps first_date_shape.simps add: text_defs eval conv_eval)

lemma no_km_absent: "label_absent Km_field report_no_km"
  by (simp add: text_defs label_defs ascii_def sublist_code(3))

theorem missing_one_label_witness:
  "label_absent Km_field report_no_km \<and>
   field_valid Date_field report_no_km \<and> field_valid Vehicle_field report_no_km \<and>
   field_valid Start_field report_no_km \<and> field_valid End_field report_no_km \<and>
   field_valid Overtime_field report_no_km \<and>
   parse_report report_no_km = (None, Some msg_km)"
proof -
  have "\<forall>f'. f' \<noteq> Km_field \<longrightarrow> field_valid f' report_no_km"
  proof (intro allI impI)
    fix f' :: field assume "f' \<noteq> Km_field"
    then show "field_valid f' report_no_km" using no_km_valid by (cases f') simp_all
  qed
  from missing_one_label [OF no_km_absent this] no_km_absent no_km_valid
  show ?thesis by simp
qed

subsection \<open>The distance outside the ring road, absent (C6)\<close>

text \<open>
  C6: when the label of the distance outside the ring road does not occur in the text and
  the six required fields are present with valid values, \<open>parse_report\<close> succeeds and the
  field \<open>km_mkad\<close> of the record is 0.
\<close>

theorem mkad_absent_default:
  assumes "\<not> sublist lbl_Probeg_za_MKAD t" and "required_valid t"
  shows "\<exists>r. parse_report t = (Some r, None) \<and> km_mkad r = 0"
proof -
  from required_validD [OF assms(2)] obtain d vm s e om km where
    "date_of t = Some d" "search VEHICLE_PATTERN t = Some vm" "start_of t = Some s"
    "end_of t = Some e" "search OVERTIME_PATTERN t = Some om" "search KM_PATTERN t = Some km"
    by blast
  from parse_report_success [OF this] KM_MKAD_label_absent [OF assms(1)]
  show ?thesis by auto
qed

lemma no_mkad_valid: "required_valid report_no_mkad"
  by (simp del: search.simps first_date_shape.simps
      add: required_valid_def text_defs eval conv_eval)

lemma no_mkad_absent: "\<not> sublist lbl_Probeg_za_MKAD report_no_mkad"
  by (simp add: text_defs label_defs ascii_def sublist_code(3))

theorem mkad_absent_default_witness:
  "\<not> sublist lbl_Probeg_za_MKAD report_no_mkad \<and> required_valid report_no_mkad \<and>
   (\<exists>r. parse_report report_no_mkad = (Some r, None) \<and> km_mkad r = 0)"
  using mkad_absent_default [OF no_mkad_absent no_mkad_valid] no_mkad_absent no_mkad_valid
  by simp

subsection \<open>The distance outside the ring road, without a number (C10)\<close>

lemma integer_follows_ws_digits:
  assumes "ws \<noteq> []" "list_all isspace ws" "ds \<noteq> []" "list_all isdecimal ds"
  shows "integer_follows (ws @ ds @ rest)"
proof -
  from assms(1,2) obtain c ws' where ws: "ws = c # ws'" "isspace c" by (cases ws) auto
  from assms(3,4) obtain d ds' where ds: "ds = d # ds'" "isdecimal d" by (cases ds) auto
  have "dropWhile isspace (ws @ ds @ rest) = dropWhile isspace (ds @ rest)"
    using assms(2) by (intro dropWhile_append2) (simp add: list_all_iff)
  also have "\<dots> = ds @ rest" using ds isspace_not_isdecimal [of d] by auto
  finally show ?thesis using ws ds by (simp add: integer_follows_def)
qed

lemma KM_MKAD_integer:
  assumes "re_match KM_MKAD_PATTERN u = Some (rest, g)"
  shows "prefix lbl_Probeg_za_MKAD u \<and> integer_follows (drop (length lbl_Probeg_za_MKAD) u)"
proof -
  from re_match_SomeD [OF assms]
  have "(rest, g) \<in> set (matches KM_MKAD_PATTERN u Map.empty)" .
  then obtain t1 g1 where
    a: "(t1, g1) \<in> set (matches (Lit lbl_Probeg_za_MKAD) u Map.empty)" and
    b: "(rest, g) \<in> set (matches (Seq (Plus (Atom Space)) (Group 1 (Plus (Atom Digit)))) t1 g1)"
    unfolding KM_MKAD_PATTERN_def seqs.simps in_matches_Seq by blast
  from a have p: "prefix lbl_Probeg_za_MKAD u" "t1 = drop (length lbl_Probeg_za_MKAD) u"
    by (simp_all add: in_matches_Lit)
  from in_matches_ws_int [OF b] obtain ws ds where
    "t1 = ws @ ds @ rest" "ws \<noteq> []" "list_all isspace ws" "ds \<noteq> []" "list_all isdecimal ds"
    by blast
  with integer_follows_ws_digits [of ws ds rest] p show ?thesis by simp
qed

lemma label_with_integer_append:
  "label_with_integer l u \<Longrightarrow> label_with_integer l (pre @ u)"
  by (induction pre) auto

lemma search_KM_MKAD_integer:
  assumes "search KM_MKAD_PATTERN t = Some g"
  shows "label_with_integer lbl_Probeg_za_MKAD t"
proof -
  from search_Some_re_match [OF assms] obtain pre u rest where
    t: "t = pre @ u" and m: "re_match KM_MKAD_PATTERN u = Some (rest, g)" by blast
  from KM_MKAD_integer [OF m] have "label_with_integer lbl_Probeg_za_MKAD u"
    by (cases u) (auto simp: lbl_Probeg_za_MKAD_def)
  with t show ?thesis by (simp add: label_with_integer_append)
qed

text \<open>
  C10: when the label of the distance outside the ring road occurs in the text and no
  occurrence of it is followed by whitespace and a digit, the pattern has no match and
  \<open>parse_report\<close> does what it does when the label is absent: with the six required fields
  valid it succeeds, \<open>km_mkad\<close> is 0, and no error is reported for the value.
\<close>

theorem mkad_malformed_as_absent:
  assumes "sublist lbl_Probeg_za_MKAD t"
    and "\<not> label_with_integer lbl_Probeg_za_MKAD t"
    and "required_valid t"
  shows "search KM_MKAD_PATTERN t = None \<and>
         (\<exists>r. parse_report t = (Some r, None) \<and> km_mkad r = 0)"
proof -
  have n: "search KM_MKAD_PATTERN t = None"
    using search_KM_MKAD_integer [of t] assms(2) by (cases "search KM_MKAD_PATTERN t") auto
  from required_validD [OF assms(3)] obtain d vm s e om km where
    "date_of t = Some d" "search VEHICLE_PATTERN t = Some vm" "start_of t = Some s"
    "end_of t = Some e" "search OVERTIME_PATTERN t = Some om" "search KM_PATTERN t = Some km"
    by blast
  from parse_report_success [OF this] n show ?thesis by auto
qed

lemma mkad_words_valid: "required_valid report_mkad_words"
  by (simp del: search.simps first_date_shape.simps
      add: required_valid_def text_defs eval conv_eval)

lemma mkad_words_label: "sublist lbl_Probeg_za_MKAD report_mkad_words"
  by (simp add: text_defs label_defs ascii_def sublist_code(3))

lemma mkad_words_no_integer: "\<not> label_with_integer lbl_Probeg_za_MKAD report_mkad_words"
  by (simp add: text_defs label_defs integer_follows_def char_eval)

theorem mkad_malformed_as_absent_witness:
  "sublist lbl_Probeg_za_MKAD report_mkad_words \<and>
   \<not> label_with_integer lbl_Probeg_za_MKAD report_mkad_words \<and>
   required_valid report_mkad_words \<and>
   search KM_MKAD_PATTERN report_mkad_words = None \<and>
   (\<exists>r. parse_report report_mkad_words = (Some r, None) \<and> km_mkad r = 0)"
  using mkad_malformed_as_absent [OF mkad_words_label mkad_words_no_integer mkad_words_valid]
    mkad_words_label mkad_words_no_integer mkad_words_valid
  by simp

subsection \<open>The date extractor (C9)\<close>

lemma date_shape_occurs:
  "first_date_shape t \<noteq> None \<longleftrightarrow> (\<exists>pre d post. t = pre @ d @ post \<and> date_shape d)"
proof
  assume "first_date_shape t \<noteq> None"
  then obtain d where "first_date_shape t = Some d" by auto
  from first_date_shape_Some [OF this] show "\<exists>pre d post. t = pre @ d @ post \<and> date_shape d"
    by blast
next
  assume "\<exists>pre d post. t = pre @ d @ post \<and> date_shape d"
  then obtain pre d post where "t = pre @ d @ post" "date_shape d" by blast
  with first_date_shape_None [of pre d post] show "first_date_shape t \<noteq> None" by auto
qed

text \<open>
  C9, as amended: the date extractor needs no label. For every input a date is found if and
  only if the shape DD.MM.YYYY occurs somewhere in the text, and the occurrence used is the
  first one from the left. An occurrence counts also when it is embedded in a longer run of
  digits: the pattern has no boundary on either side (see the counterexample).
\<close>

theorem date_search_first_shape:
  "search DATE_PATTERN t = map_option (\<lambda>d. [1 \<mapsto> d]) (first_date_shape t) \<and>
   (search DATE_PATTERN t \<noteq> None \<longleftrightarrow> (\<exists>pre d post. t = pre @ d @ post \<and> date_shape d))"
  using date_shape_occurs [of t] by (simp add: search_DATE)

theorem date_embedded_counterexample:
  "map_option (\<lambda>g. g 1) (search DATE_PATTERN (ascii ''115.03.20245'')) =
     Some (Some (ascii ''15.03.2024'')) \<and>
   \<not> standalone_date_token False (ascii ''115.03.20245'')"
  by (simp del: search.simps first_date_shape.simps add: eval)

subsection \<open>Overtime (C5)\<close>


























subsection \<open>The vehicle field (C8)\<close>








end
